(* ===== verification/Prelude.thy ===== *)
theory Prelude
  imports Complex_Main "HOL-Library.Word"
begin

text \<open>
  Shared vocabulary of the development. JavaScript numbers are modelled as exact
  rationals (\<open>js_number\<close>); a number that may be \<open>NaN\<close> (the result of arithmetic on
  \<open>undefined\<close>) is a \<open>js_value\<close>, with \<open>None\<close> for \<open>NaN\<close>. The cells of a canvas
  \<open>Uint8ClampedArray\<close> are 8-bit words. The named collections gather the rewrite rules
  the component theories share: buffer reads and writes (\<open>pixel_simps\<close>) and the
  unfolding of the application's handlers (\<open>app_simps\<close>).
\<close>

type_synonym js_number = rat
type_synonym js_value = "rat option"
type_synonym u8 = "8 word"

named_theorems pixel_simps "reads and writes of RGBA pixel buffers"
named_theorems app_simps "unfolding of the application's state handlers"

text \<open>A key of a spread object literal: the new value if the key is present.\<close>

definition override :: "'a \<Rightarrow> 'a option \<Rightarrow> 'a" where
  "override x u = (case u of None \<Rightarrow> x | Some v \<Rightarrow> v)"

text \<open>The list without its \<open>j\<close>-th element (a completed asynchronous task).\<close>

definition remove_at :: "nat \<Rightarrow> 'a list \<Rightarrow> 'a list" where
  "remove_at j xs = take j xs @ drop (Suc j) xs"

text \<open>Addition on values that may be \<open>NaN\<close>: \<open>NaN\<close> is absorbing.\<close>

definition js_add :: "js_value \<Rightarrow> js_value \<Rightarrow> js_value" where
  "js_add a b = (case (a, b) of (Some x, Some y) \<Rightarrow> Some (x + y) | _ \<Rightarrow> None)"

subsection \<open>Lists\<close>

lemma override_simps [simp]: "override x None = x" "override x (Some v) = v"
  by (simp_all add: override_def)

lemma set_remove_at: "set (remove_at j xs) \<subseteq> set xs"
  by (auto simp: remove_at_def dest: in_set_takeD in_set_dropD)

lemma length_remove_at [simp]: "j < length xs \<Longrightarrow> length (remove_at j xs) = length xs - 1"
  by (simp add: remove_at_def)

lemma list_all_update [intro]: "list_all P xs \<Longrightarrow> P v \<Longrightarrow> list_all P (xs[i := v])"
  by (induction xs arbitrary: i) (simp_all split: nat.split)

lemma list_all_remove_at [intro]: "list_all P xs \<Longrightarrow> list_all P (remove_at j xs)"
  by (meson list_all_iff set_remove_at subsetD)

lemma list_update_append_length_plus [simp]:
  "(xs @ ys)[length xs + n := v] = xs @ ys[n := v]"
  by (simp add: list_update_append)

lemma list_update_append_length [simp]:
  "(xs @ ys)[length xs := v] = xs @ ys[0 := v]"
  using list_update_append_length_plus [of xs ys 0 v] by simp

lemma nth_append_length_0 [simp]:
  "(xs @ ys) ! length xs = ys ! 0"
  by (simp add: nth_append)

lemma nth_Cons_pixel [simp]:
  "(a # b # c # e # xs) ! (4 * Suc k + j) = xs ! (4 * k + j)"
proof -
  have "4 * Suc k + j = Suc (Suc (Suc (Suc (4 * k + j))))" by simp
  then show ?thesis by (simp only: nth_Cons_Suc)
qed

subsection \<open>Words\<close>

lemma unat_word_of_nat_small [simp]:
  "n < 2 ^ LENGTH('a) \<Longrightarrow> unat (word_of_nat n :: 'a::len word) = n"
  by (simp add: unat_of_nat)

lemma unat_u8_bound [intro]: "unat (w :: u8) \<le> 255"
proof -
  have "unat w < 2 ^ LENGTH(8)" by (rule unsigned_less)
  then show ?thesis by simp
qed

subsection \<open>JavaScript numbers\<close>

lemma js_add_Some [simp]: "js_add (Some x) (Some y) = Some (x + y)"
  and js_add_None [simp]: "js_add None b = None" "js_add a None = None"
  by (simp_all add: js_add_def split: option.splits)

end
