(* ===== verification/Grayscale.thy ===== *)
theory Grayscale
  imports Prelude
begin

text \<open>
  The grayscale pass of the render routine (\<open>src/src/components/ImageCanvas.tsx\<close>,
  lines 54--66): a loop over the RGBA buffer returned by \<open>getImageData\<close> that
  replaces the red, green and blue cells of every pixel by their mean. The buffer is a
  \<open>Uint8ClampedArray\<close>: a read beyond its end gives \<open>undefined\<close> (so the mean is
  \<open>NaN\<close>), a write beyond its end is ignored, and a stored number is converted by the
  ECMAScript operation ToUint8Clamp (clamp to \<open>[0, 255]\<close>, round half to even,
  \<open>NaN\<close> to \<open>0\<close>). The loop \<open>gray_loop\<close> is the code; \<open>gray_pixels\<close> is the
  pixel-by-pixel reference it is proved equal to.
\<close>

subsection \<open>The typed array\<close>

definition to_uint8_clamp :: "js_value \<Rightarrow> u8" where
  "to_uint8_clamp v = (case v of None \<Rightarrow> 0
     | Some x \<Rightarrow>
         if x \<le> 0 then 0 else if 255 \<le> x then 255
         else (let f = \<lfloor>x\<rfloor> in
               if of_int f + 1 / 2 < x then word_of_int (f + 1)
               else if x < of_int f + 1 / 2 then word_of_int f
               else if even f then word_of_int f else word_of_int (f + 1)))"

definition read_cell :: "u8 list \<Rightarrow> nat \<Rightarrow> js_value" where
  "read_cell d i = (if i < length d then Some (of_nat (unat (d ! i))) else None)"

definition write_cell :: "u8 list \<Rightarrow> nat \<Rightarrow> js_value \<Rightarrow> u8 list" where
  "write_cell d i v = (if i < length d then d[i := to_uint8_clamp v] else d)"

subsection \<open>The loop of the source\<close>

text \<open>One iteration: \<open>avg = (data[i] + data[i+1] + data[i+2]) / 3\<close>, then the three
  stores in the source's order.\<close>

definition gray_at :: "u8 list \<Rightarrow> nat \<Rightarrow> u8 list" where
  "gray_at d i =
     (let avg = map_option (\<lambda>s. s / 3)
                  (js_add (js_add (read_cell d i) (read_cell d (i + 1))) (read_cell d (i + 2)));
          d1 = write_cell d i avg;
          d2 = write_cell d1 (i + 1) avg
      in write_cell d2 (i + 2) avg)"

text \<open>\<open>for (let i = 0; i < data.length; i += 4)\<close>: the distance to the end shrinks.\<close>

function gray_loop :: "u8 list \<Rightarrow> nat \<Rightarrow> u8 list" where
  "gray_loop d i = (if i < length d then gray_loop (gray_at d i) (i + 4) else d)"
  by pat_completeness auto
termination
  by (relation "measure (\<lambda>(d, i). length d - i)") (auto simp: gray_at_def Let_def write_cell_def)

subsection \<open>The reference: one pixel at a time\<close>

definition avg3 :: "u8 \<Rightarrow> u8 \<Rightarrow> u8 \<Rightarrow> u8" where
  "avg3 r g b = word_of_nat ((unat r + unat g + unat b + 1) div 3)"

fun gray_pixels :: "u8 list \<Rightarrow> u8 list" where
  "gray_pixels (r # g # b # a # rest) = (let v = avg3 r g b in v # v # v # a # gray_pixels rest)"
| "gray_pixels [r, g, b] = (let v = avg3 r g b in [v, v, v])"
| "gray_pixels [r, g] = [0, 0]"
| "gray_pixels [r] = [0]"
| "gray_pixels [] = []"

subsection \<open>Lengths\<close>

declare gray_loop.simps [simp del]

lemma length_write_cell [simp]: "length (write_cell d i v) = length d"
  by (simp add: write_cell_def)

lemma length_gray_at [simp]: "length (gray_at d i) = length d"
  by (simp add: gray_at_def Let_def)

lemma length_gray_pixels [simp]: "length (gray_pixels d) = length d"
  by (induction d rule: gray_pixels.induct) (simp_all add: Let_def)

lemma length_gray_loop [simp]: "length (gray_loop d i) = length d"
proof (induction d i rule: gray_loop.induct)
  case (1 d i)
  then show ?case by (subst gray_loop.simps) simp
qed

subsection \<open>Rounding of the mean\<close>

text \<open>The mean of three cells has fractional part 0, 1/3 or 2/3, so ToUint8Clamp never
  meets a tie and rounds to nearest: the stored value is \<open>(s + 1) div 3\<close>.\<close>

lemma to_uint8_clamp_third:
  assumes "s \<le> 765"
  shows "to_uint8_clamp (Some (of_nat s / 3)) = word_of_nat ((s + 1) div 3)"
proof (cases "s = 0 \<or> s = 765")
  case True
  then show ?thesis by (auto simp: to_uint8_clamp_def)
next
  case False
  define X where "X = (of_nat s / 3 :: rat)"
  have pos: "\<not> X \<le> 0" and top: "\<not> 255 \<le> X"
    using False assms by (auto simp: X_def)
  have fl: "\<lfloor>X\<rfloor> = int (s div 3)"
    using floor_divide_of_nat_eq [of s 3] by (simp add: X_def)
  have e: "(of_nat s :: rat) = of_nat (s mod 3) + 3 * of_nat (s div 3)"
    by (metis mod_mult_div_eq of_nat_add of_nat_mult of_nat_numeral)
  have fr: "X = of_nat (s div 3) + of_nat (s mod 3) / 3"
    unfolding X_def e by (simp add: field_simps)
  have "s mod 3 = 0 \<or> s mod 3 = 1 \<or> s mod 3 = 2" by arith
  then have "to_uint8_clamp (Some X) = word_of_nat ((s + 1) div 3)"
  proof (elim disjE)
    assume m: "s mod 3 = 0"
    then have "(s + 1) div 3 = s div 3" by presburger
    with m show ?thesis using pos top fl fr by (simp add: to_uint8_clamp_def Let_def)
  next
    assume m: "s mod 3 = 1"
    then have "(s + 1) div 3 = s div 3" by presburger
    with m show ?thesis using pos top fl fr by (simp add: to_uint8_clamp_def Let_def)
  next
    assume m: "s mod 3 = 2"
    then have "(s + 1) div 3 = s div 3 + 1" by presburger
    with m show ?thesis using pos top fl fr by (simp add: to_uint8_clamp_def Let_def)
  qed
  then show ?thesis by (simp add: X_def)
qed

lemma to_uint8_clamp_mean [pixel_simps]:
  "to_uint8_clamp (Some ((unsigned r + unsigned g + unsigned b) / 3)) = avg3 r g b"
proof -
  have "unat r + unat g + unat b \<le> 765"
    using unat_u8_bound [of r] unat_u8_bound [of g] unat_u8_bound [of b] by arith
  moreover have "(unsigned r + unsigned g + unsigned b :: rat) = of_nat (unat r + unat g + unat b)"
    by simp
  ultimately show ?thesis
    using to_uint8_clamp_third [of "unat r + unat g + unat b"] by (simp add: avg3_def)
qed

lemma to_uint8_clamp_nan [simp]: "to_uint8_clamp None = 0"
  by (simp add: to_uint8_clamp_def)

lemma unat_avg3: "unat (avg3 r g b) = (unat r + unat g + unat b + 1) div 3"
proof -
  have "(unat r + unat g + unat b + 1) div 3 < 2 ^ LENGTH(8)"
    using unat_u8_bound [of r] unat_u8_bound [of g] unat_u8_bound [of b] by simp
  then show ?thesis by (simp add: avg3_def)
qed

lemma avg3_same [simp]: "avg3 v v v = v"
proof -
  have "(unat v + unat v + unat v + 1) div 3 = unat v" by simp
  then show ?thesis by (simp add: avg3_def)
qed

subsection \<open>One iteration on a pixel\<close>

lemmas pixel_cell_rules [pixel_simps] = read_cell_def write_cell_def nth_append list_update_append

lemma gray_at_pixel:
  "gray_at (ys @ r # g # b # rest) (length ys) =
     ys @ avg3 r g b # avg3 r g b # avg3 r g b # rest"
  by (simp add: gray_at_def Let_def pixel_simps to_uint8_clamp_mean)

lemma gray_at_two: "gray_at (ys @ [r, g]) (length ys) = ys @ [0, 0]"
  by (simp add: gray_at_def Let_def pixel_simps)

lemma gray_at_one: "gray_at (ys @ [r]) (length ys) = ys @ [0]"
  by (simp add: gray_at_def Let_def pixel_simps)

subsection \<open>The loop computes the reference\<close>

text \<open>The loop invariant: the cells before \<open>i\<close> are done, \<open>i\<close> is a multiple of 4, and
  the rest is untouched; generalised over the finished prefix \<open>ys\<close>.\<close>

lemma gray_loop_append:
  "length ys mod 4 = 0 \<Longrightarrow> gray_loop (ys @ zs) (length ys) = ys @ gray_pixels zs"
proof (induction zs arbitrary: ys rule: gray_pixels.induct)
  case (1 r g b a rest)
  let ?v = "avg3 r g b"
  have step: "gray_at (ys @ r # g # b # a # rest) (length ys) = (ys @ [?v, ?v, ?v, a]) @ rest"
    using gray_at_pixel [of ys r g b "a # rest"] by simp
  have len: "length (ys @ [?v, ?v, ?v, a]) = length ys + 4" by simp
  have "gray_loop ((ys @ [?v, ?v, ?v, a]) @ rest) (length (ys @ [?v, ?v, ?v, a])) =
        (ys @ [?v, ?v, ?v, a]) @ gray_pixels rest"
    using "1.prems" by (intro "1.IH") (simp_all add: Let_def)
  then have "gray_loop (gray_at (ys @ r # g # b # a # rest) (length ys)) (length ys + 4) =
        ys @ gray_pixels (r # g # b # a # rest)"
    by (simp only: step len) (simp add: Let_def)
  then show ?case
    by (subst gray_loop.simps) simp
next
  case (2 r g b)
  have "gray_at (ys @ [r, g, b]) (length ys) = ys @ [avg3 r g b, avg3 r g b, avg3 r g b]"
    using gray_at_pixel [of ys r g b "[]"] by simp
  then show ?case
    by (simp add: gray_loop.simps [of "ys @ [r, g, b]"]
        gray_loop.simps [of "ys @ [avg3 r g b, avg3 r g b, avg3 r g b]"] Let_def)
next
  case (3 r g)
  then show ?case
    by (simp add: gray_loop.simps [of "ys @ [r, g]"] gray_loop.simps [of "ys @ [0, 0]"] gray_at_two)
next
  case (4 r)
  then show ?case
    by (simp add: gray_loop.simps [of "ys @ [r]"] gray_loop.simps [of "ys @ [0]"] gray_at_one)
next
  case 5
  then show ?case by (simp add: gray_loop.simps)
qed

subsection \<open>Properties of the reference\<close>

lemma gray_pixels_append:
  "length ys mod 4 = 0 \<Longrightarrow> gray_pixels (ys @ zs) = gray_pixels ys @ gray_pixels zs"
  by (induction ys rule: gray_pixels.induct) (simp_all add: Let_def)

lemma gray_pixels_idem: "gray_pixels (gray_pixels d) = gray_pixels d"
  by (induction d rule: gray_pixels.induct) (simp_all add: Let_def)

lemma gray_pixels_channel:
  "4 * k + 2 < length d \<Longrightarrow> j < 3 \<Longrightarrow>
     gray_pixels d ! (4 * k + j) = avg3 (d ! (4 * k)) (d ! (4 * k + 1)) (d ! (4 * k + 2))"
proof (induction d arbitrary: k rule: gray_pixels.induct)
  case (1 r g b a rest)
  show ?case
  proof (cases k)
    case 0
    have "j = 0 \<or> j = 1 \<or> j = 2" using "1.prems"(2) by arith
    with 0 show ?thesis by (auto simp: Let_def)
  next
    case (Suc k')
    with "1.prems" have "4 * k' + 2 < length rest" by simp
    with "1.IH" [of "avg3 r g b" k'] "1.prems"(2) Suc show ?thesis
      using nth_Cons_pixel [of r g b a rest k' 0] nth_Cons_pixel [of r g b a rest k' 1]
        nth_Cons_pixel [of r g b a rest k' 2] by (simp add: Let_def)
  qed
next
  case (2 r g b)
  then have "k = 0" and "j = 0 \<or> j = 1 \<or> j = 2" by simp_all arith
  then show ?case by (auto simp: Let_def)
qed simp_all

lemma gray_pixels_alpha:
  "4 * k + 3 < length d \<Longrightarrow> gray_pixels d ! (4 * k + 3) = d ! (4 * k + 3)"
proof (induction d arbitrary: k rule: gray_pixels.induct)
  case (1 r g b a rest)
  show ?case
  proof (cases k)
    case 0
    then show ?thesis by (simp add: Let_def)
  next
    case (Suc k')
    with "1.prems" have "4 * k' + 3 < length rest" by simp
    with "1.IH" [of "avg3 r g b" k'] Suc show ?thesis
      using nth_Cons_pixel [of r g b a rest k' 3] nth_Cons_pixel [of _ _ _ _ "gray_pixels rest" k' 3]
      by (simp add: Let_def)
  qed
qed simp_all

lemma gray_loop_reference: "gray_loop d 0 = gray_pixels d"
  using gray_loop_append [of "[]" d] by simp

lemma gray_pixels_rounded_mean:
  "int (unat (avg3 r g b)) = \<lfloor>(of_nat (unat r + unat g + unat b) / 3 + 1 / 2 :: rat)\<rfloor>"
proof -
  define s where "s = unat r + unat g + unat b"
  have "(of_nat s / 3 + 1 / 2 :: rat) = of_nat (2 * s + 3) / of_nat 6"
    by (simp add: field_simps)
  then have "\<lfloor>(of_nat s / 3 + 1 / 2 :: rat)\<rfloor> = int ((2 * s + 3) div 6)"
    by (simp only: floor_divide_of_nat_eq)
  moreover have "(2 * s + 3) div 6 = (s + 1) div 3" by presburger
  ultimately show ?thesis by (simp add: unat_avg3 s_def)
qed

subsection \<open>Properties of the grayscale pass\<close>

text \<open>C3: the index loop of the source computes, on every buffer, the pixel-by-pixel
  reference: each whole RGBA pixel becomes \<open>(v, v, v, a)\<close> with \<open>v\<close> the rounded mean
  of its colour cells; a trailing partial pixel of one or two cells becomes zeros (the mean
  reads \<open>undefined\<close> and is \<open>NaN\<close>), one of three cells becomes its mean.\<close>

theorem gray_loop_is_reference: "gray_loop d 0 = gray_pixels d"
  using gray_loop_append [of "[]" d] by simp

text \<open>C10: grayscale on a pixel: a whole pixel at a pixel boundary has its three colour
  channels replaced by one value \<open>v\<close> and its alpha cell kept, the pixels around it are
  processed on their own, and \<open>v\<close> is the mean of the three channels rounded to the
  nearest integer, \<open>Math.round((r + g + b) / 3)\<close> as the specification asks
  (ToUint8Clamp's round-half-to-even never differs, since the mean is never a half).\<close>

theorem grayscale_pixel:
  assumes "length ys mod 4 = 0"
  shows "gray_loop (ys @ r # g # b # a # rest) 0 =
           gray_loop ys 0 @ avg3 r g b # avg3 r g b # avg3 r g b # a # gray_loop rest 0 \<and>
         int (unat (avg3 r g b)) = \<lfloor>(of_nat (unat r + unat g + unat b) / 3 + 1 / 2 :: rat)\<rfloor>"
  using assms gray_pixels_rounded_mean [of r g b]
  by (simp add: gray_loop_reference gray_pixels_append Let_def)

theorem grayscale_pixel_witness:
  "gray_loop ([1, 2, 3, 4] @ 200 # 200 # 201 # 9 # [7]) 0 =
     gray_loop [1, 2, 3, 4] 0 @ 200 # 200 # 200 # 9 # gray_loop [7] 0"
proof -
  have "avg3 200 200 201 = 200" by (simp add: avg3_def)
  then show ?thesis using grayscale_pixel [of "[1, 2, 3, 4]" 200 200 201 9 "[7]"] by simp
qed

text \<open>C17: grayscale is idempotent: running the pass on its own output changes nothing.\<close>

theorem grayscale_idempotent: "gray_loop (gray_loop d 0) 0 = gray_loop d 0"
  by (simp add: gray_loop_reference gray_pixels_idem)

end
