(* ===== verification/JsNumber.thy ===== *)
theory JsNumber
  imports Prelude
begin

text \<open>
  The two conversions between numbers and strings that the components rely on: the
  template literals of the render routine (\<open>`brightness(${100 + brightness}%)`\<close>,
  \<open>`${fontSize}px Arial`\<close>) print a number with Number::toString, and the control
  panels read a slider with \<open>Number(e.target.value)\<close> (StringToNumber). Both are
  ECMAScript operations, not code of the repository. They are modelled on exact
  rationals: \<open>js_num_str\<close> prints sign, integer digits and up to 20 fractional digits,
  which is Number::toString for every number with such a terminating decimal expansion
  below \<open>10^21\<close> (all values the sliders produce); \<open>js_Number\<close> reads an optional sign
  and a decimal literal (\<open>5\<close>, \<open>5.\<close>, \<open>.5\<close>, \<open>-2.25\<close>) after trimming white
  space, maps the empty string to 0 and everything else to \<open>NaN\<close> (\<open>None\<close>); exponent,
  hexadecimal and \<open>Infinity\<close> literals, which a range input never produces, are left
  out.
\<close>

subsection \<open>Printing\<close>

definition digit_char :: "nat \<Rightarrow> char" where
  "digit_char d = char_of (48 + d)"

fun show_nat :: "nat \<Rightarrow> string" where
  "show_nat n = (if n < 10 then [digit_char n] else show_nat (n div 10) @ [digit_char (n mod 10)])"

text \<open>Fractional digits of \<open>f \<in> [0, 1)\<close>, at most \<open>fuel\<close> of them.\<close>

fun frac_digits :: "nat \<Rightarrow> rat \<Rightarrow> string" where
  "frac_digits 0 f = []"
| "frac_digits (Suc fuel) f =
     (if f = 0 then []
      else (let t = 10 * f; d = \<lfloor>t\<rfloor> in digit_char (nat d) # frac_digits fuel (t - of_int d)))"

definition js_num_str :: "js_number \<Rightarrow> string" where
  "js_num_str x =
     (let a = \<bar>x\<bar>; n = \<lfloor>a\<rfloor>; fd = frac_digits 20 (a - of_int n)
      in (if x < 0 then ''-'' else []) @ show_nat (nat n) @ (if fd = [] then [] else ''.'' @ fd))"

text \<open>A number that may be \<open>NaN\<close> prints as \<open>NaN\<close>.\<close>

definition js_value_str :: "js_value \<Rightarrow> string" where
  "js_value_str v = (case v of None \<Rightarrow> ''NaN'' | Some x \<Rightarrow> js_num_str x)"

subsection \<open>Reading\<close>

definition char_digit :: "char \<Rightarrow> nat option" where
  "char_digit c = (let k = of_char c :: nat in if 48 \<le> k \<and> k < 58 then Some (k - 48) else None)"

fun digits_val :: "nat \<Rightarrow> string \<Rightarrow> nat option" where
  "digits_val acc [] = Some acc"
| "digits_val acc (c # cs) =
     (case char_digit c of None \<Rightarrow> None | Some d \<Rightarrow> digits_val (10 * acc + d) cs)"

definition parse_unsigned :: "string \<Rightarrow> js_value" where
  "parse_unsigned s =
     (let ip = takeWhile (\<lambda>c. c \<noteq> CHR ''.'') s; rest = dropWhile (\<lambda>c. c \<noteq> CHR ''.'') s
      in if ip = [] \<and> (rest = [] \<or> rest = ''.'') then None
         else (case digits_val 0 ip of
                 None \<Rightarrow> None
               | Some n \<Rightarrow>
                   (case rest of
                      [] \<Rightarrow> Some (of_nat n)
                    | _ # fs \<Rightarrow>
                        (case digits_val 0 fs of
                           None \<Rightarrow> None
                         | Some m \<Rightarrow> Some (of_nat n + of_nat m / 10 ^ length fs)))))"

definition is_js_space :: "char \<Rightarrow> bool" where
  "is_js_space c \<longleftrightarrow> c \<in> {CHR '' '', CHR 0x09, CHR 0x0A, CHR 0x0B, CHR 0x0C, CHR 0x0D}"

definition js_trim :: "string \<Rightarrow> string" where
  "js_trim s = rev (dropWhile is_js_space (rev (dropWhile is_js_space s)))"

definition js_Number :: "string \<Rightarrow> js_value" where
  "js_Number s =
     (let t = js_trim s
      in if t = [] then Some 0
         else (case t of
                 c # u \<Rightarrow>
                   if c = CHR ''-'' then map_option uminus (parse_unsigned u)
                   else if c = CHR ''+'' then parse_unsigned u
                   else parse_unsigned t))"

subsection \<open>Digits\<close>

lemma of_char_digit_char [simp]: "d < 10 \<Longrightarrow> of_char (digit_char d) = 48 + d"
  by (simp add: digit_char_def)

lemma char_digit_digit_char [simp]: "d < 10 \<Longrightarrow> char_digit (digit_char d) = Some d"
  by (simp add: char_digit_def)

lemma digit_char_eq: "d < 10 \<Longrightarrow> digit_char d = c \<Longrightarrow> of_char c = (48 + d :: nat)"
  by (drule of_char_digit_char) simp

lemma digit_char_not_special [simp]:
  "d < 10 \<Longrightarrow> digit_char d \<noteq> CHR ''.''" "d < 10 \<Longrightarrow> digit_char d \<noteq> CHR ''-''"
  "d < 10 \<Longrightarrow> digit_char d \<noteq> CHR ''+''"
  using digit_char_eq [of d "CHR ''.''"] digit_char_eq [of d "CHR ''-''"]
    digit_char_eq [of d "CHR ''+''"] by auto

lemma digit_char_not_space [simp]: "d < 10 \<Longrightarrow> \<not> is_js_space (digit_char d)"
  unfolding is_js_space_def
  using digit_char_eq [of d "CHR '' ''"] digit_char_eq [of d "CHR 0x09"] digit_char_eq [of d "CHR 0x0A"]
    digit_char_eq [of d "CHR 0x0B"] digit_char_eq [of d "CHR 0x0C"] digit_char_eq [of d "CHR 0x0D"]
  by auto

declare show_nat.simps [simp del]

lemma show_nat_digits: "set (show_nat n) \<subseteq> digit_char ` {..<10}"
proof (induction n rule: show_nat.induct)
  case (1 n)
  then show ?case by (cases "n < 10") (auto simp: show_nat.simps [of n])
qed

lemma show_nat_not_Nil [simp]: "show_nat n \<noteq> []"
  by (simp add: show_nat.simps [of n])

lemma digits_val_append:
  "digits_val acc (xs @ ys) = (case digits_val acc xs of None \<Rightarrow> None | Some a \<Rightarrow> digits_val a ys)"
  by (induction acc xs rule: digits_val.induct) (simp_all split: option.split)

lemma digits_val_show_nat: "digits_val 0 (show_nat n) = Some n"
proof (induction n rule: show_nat.induct)
  case (1 n)
  show ?case
  proof (cases "n < 10")
    case True
    then show ?thesis by (simp add: show_nat.simps [of n])
  next
    case False
    with "1.IH" show ?thesis by (simp add: show_nat.simps [of n] digits_val_append)
  qed
qed

lemma show_nat_no_dot [simp]:
  assumes "c \<in> set (show_nat n)"
  shows "c \<noteq> CHR ''.''"
proof -
  from assms have "c \<in> digit_char ` {..<10}" using show_nat_digits [of n] by (rule subsetD [rotated])
  then obtain d where "d < 10" "c = digit_char d" by (rule imageE) simp
  then show ?thesis by simp
qed

lemma show_nat_head: "\<exists>d < 10. \<exists>cs. show_nat n = digit_char d # cs"
proof -
  obtain c cs where sn: "show_nat n = c # cs" by (cases "show_nat n") auto
  then have "c \<in> digit_char ` {..<10}" using show_nat_digits [of n] by auto
  with sn show ?thesis by auto
qed

lemma show_nat_hd_last: "\<not> is_js_space (hd (show_nat n))" "\<not> is_js_space (last (show_nat n))"
  "hd (show_nat n) \<noteq> CHR ''-''" "hd (show_nat n) \<noteq> CHR ''+''"
proof -
  have "hd (show_nat n) \<in> digit_char ` {..<10}"
    using show_nat_digits hd_in_set [OF show_nat_not_Nil] by (rule subsetD)
  then obtain d where d: "d < 10" "hd (show_nat n) = digit_char d" by (rule imageE) simp
  have "last (show_nat n) \<in> digit_char ` {..<10}"
    using show_nat_digits last_in_set [OF show_nat_not_Nil] by (rule subsetD)
  then obtain e where e: "e < 10" "last (show_nat n) = digit_char e" by (rule imageE) simp
  from d e show "\<not> is_js_space (hd (show_nat n))" "\<not> is_js_space (last (show_nat n))"
    "hd (show_nat n) \<noteq> CHR ''-''" "hd (show_nat n) \<noteq> CHR ''+''"
    by simp_all
qed

lemma js_trim_id:
  assumes "s \<noteq> []" "\<not> is_js_space (hd s)" "\<not> is_js_space (last s)"
  shows "js_trim s = s"
proof -
  have "dropWhile is_js_space s = s" using assms(1,2) by (cases s) simp_all
  moreover have "dropWhile is_js_space (rev s) = rev s"
    using assms(1,3) by (cases "rev s") (simp_all add: last_rev [symmetric])
  ultimately show ?thesis by (simp add: js_trim_def)
qed

lemma frac_digits_zero [simp]: "frac_digits k 0 = []"
  by (cases k) simp_all

lemma frac_digits_half: "frac_digits 20 (1 / 2) = [digit_char 5]"
proof -
  have "(20::nat) = Suc 19" by simp
  then show ?thesis by (simp only:) (subst frac_digits.simps(2), simp add: Let_def)
qed

lemma js_num_str_int: "js_num_str (of_int n) = (if n < 0 then ''-'' else []) @ show_nat (nat \<bar>n\<bar>)"
proof -
  have "\<lfloor>\<bar>(of_int n :: rat)\<bar>\<rfloor> = \<bar>n\<bar>" by (metis floor_of_int of_int_abs)
  then show ?thesis by (simp add: js_num_str_def Let_def)
qed

lemma js_num_str_half:
  "js_num_str (of_int n + 1 / 2) =
     (if n < 0 then ''-'' else []) @ show_nat (nat (if n < 0 then - n - 1 else n)) @ [CHR ''.'', digit_char 5]"
proof -
  define m where "m = (if n < 0 then - n - 1 else n)"
  have a: "\<bar>(of_int n + 1 / 2 :: rat)\<bar> = of_int m + 1 / 2" by (simp add: m_def)
  have fl: "\<lfloor>(of_int m + 1 / 2 :: rat)\<rfloor> = m" by linarith
  have fr: "(of_int m + 1 / 2 :: rat) - of_int m = 1 / 2" by simp
  have neg: "(of_int n + 1 / 2 :: rat) < 0 \<longleftrightarrow> n < 0" by linarith
  show ?thesis
    unfolding js_num_str_def Let_def a fl fr neg frac_digits_half m_def [symmetric] by simp
qed

lemma parse_unsigned_nat: "parse_unsigned (show_nat k) = Some (of_nat k)"
proof -
  have tw: "takeWhile (\<lambda>c. c \<noteq> CHR ''.'') (show_nat k) = show_nat k"
    and dw: "dropWhile (\<lambda>c. c \<noteq> CHR ''.'') (show_nat k) = []"
    by (simp_all add: takeWhile_eq_all_conv dropWhile_eq_Nil_conv)
  show ?thesis unfolding parse_unsigned_def Let_def tw dw by (simp add: digits_val_show_nat)
qed

lemma parse_unsigned_half: "parse_unsigned (show_nat k @ [CHR ''.'', digit_char 5]) = Some (of_nat k + 1 / 2)"
proof -
  have tw: "takeWhile (\<lambda>c. c \<noteq> CHR ''.'') (show_nat k @ [CHR ''.'', digit_char 5]) = show_nat k"
    and dw: "dropWhile (\<lambda>c. c \<noteq> CHR ''.'') (show_nat k @ [CHR ''.'', digit_char 5]) = [CHR ''.'', digit_char 5]"
    by simp_all
  show ?thesis unfolding parse_unsigned_def Let_def tw dw by (simp add: digits_val_show_nat)
qed

lemma js_Number_unsigned:
  assumes "t \<noteq> []" "hd t \<noteq> CHR ''-''" "hd t \<noteq> CHR ''+''"
    "\<not> is_js_space (hd t)" "\<not> is_js_space (last t)"
  shows "js_Number t = parse_unsigned t" "js_Number (''-'' @ t) = map_option uminus (parse_unsigned t)"
proof -
  have "js_trim t = t" using assms by (simp add: js_trim_id)
  moreover have "js_trim (''-'' @ t) = ''-'' @ t"
    using assms(1,5) by (intro js_trim_id) (simp_all add: is_js_space_def)
  ultimately show "js_Number t = parse_unsigned t" "js_Number (''-'' @ t) = map_option uminus (parse_unsigned t)"
    using assms(1-3) by (auto simp: js_Number_def neq_Nil_conv)
qed

lemma js_Number_int: "js_Number (js_num_str (of_int n)) = Some (of_int n)"
proof -
  note u = js_Number_unsigned [OF show_nat_not_Nil show_nat_hd_last(3) show_nat_hd_last(4)
      show_nat_hd_last(1) show_nat_hd_last(2)]
  show ?thesis
  proof (cases "n < 0")
    case True
    then show ?thesis
      using u(2) [of "nat \<bar>n\<bar>"]
      by (simp add: js_num_str_int parse_unsigned_nat)
  next
    case False
    then show ?thesis
      using u(1) [of "nat \<bar>n\<bar>"]
      by (simp add: js_num_str_int parse_unsigned_nat)
  qed
qed

lemma js_Number_half: "js_Number (js_num_str (of_int n + 1 / 2)) = Some (of_int n + 1 / 2)"
proof -
  define m where "m = (if n < 0 then - n - 1 else n)"
  let ?t = "show_nat (nat m) @ [CHR ''.'', digit_char 5]"
  have "?t \<noteq> []" "hd ?t \<noteq> CHR ''-''" "hd ?t \<noteq> CHR ''+''" "\<not> is_js_space (hd ?t)"
    "\<not> is_js_space (last ?t)"
    using show_nat_hd_last [of "nat m"] by simp_all
  note u = js_Number_unsigned [OF this]
  have str: "js_num_str (of_int n + 1 / 2) = (if n < 0 then ''-'' else []) @ ?t"
    by (simp add: js_num_str_half m_def)
  show ?thesis
  proof (cases "n < 0")
    case True
    then have "- (of_nat (nat m) + 1 / 2) = (of_int n + 1 / 2 :: rat)" by (simp add: m_def)
    with True show ?thesis using u(2) by (simp add: str parse_unsigned_half)
  next
    case False
    then have "of_nat (nat m) + 1 / 2 = (of_int n + 1 / 2 :: rat)" by (simp add: m_def)
    with False show ?thesis using u(1) by (simp add: str parse_unsigned_half)
  qed
qed

subsection \<open>Round trip\<close>

lemma js_Number_num_str:
  assumes "of_int \<lfloor>2 * x\<rfloor> = 2 * x"
  shows "js_Number (js_num_str x) = Some x"
proof -
  define m where "m = \<lfloor>2 * x\<rfloor>"
  have x: "2 * x = of_int m" unfolding m_def using assms by (rule sym)
  show ?thesis
  proof (cases "even m")
    case True
    then have "x = of_int (m div 2)" using x by (auto elim!: evenE)
    then show ?thesis using js_Number_int [of "m div 2"] by simp
  next
    case False
    then have "x = of_int (m div 2) + 1 / 2" using x by (auto elim!: oddE simp: field_simps)
    then show ?thesis using js_Number_half [of "m div 2"] by simp
  qed
qed

text \<open>Reading back a printed value gives the value: \<open>NaN\<close> prints as
  \<open>NaN\<close>, which reads back as \<open>NaN\<close>, and every integer and every half-integer (the
  values of all the sliders, steps 1 and 0.5) prints as a decimal that reads back to it. So the
  value a range input shows as its \<open>value\<close> string is the value
  \<open>Number(e.target.value)\<close> hands on, and a label shows what the state holds.\<close>

theorem js_value_roundtrip:
  assumes "case v of None \<Rightarrow> True | Some x \<Rightarrow> of_int \<lfloor>2 * x\<rfloor> = 2 * x"
  shows "js_Number (js_value_str v) = v"
proof (cases v)
  case None
  have "js_Number ''NaN'' = None" by code_simp
  then show ?thesis using None by (simp add: js_value_str_def)
next
  case (Some x)
  then show ?thesis using assms by (simp add: js_value_str_def js_Number_num_str)
qed

theorem js_value_roundtrip_witness: "js_Number (js_value_str (Some (- 5 / 2))) = Some (- 5 / 2)"
  by (rule js_value_roundtrip) simp

end
