(* ===== verification/ImageCanvas.thy ===== *)
theory ImageCanvas
  imports Grayscale JsNumber
begin

text \<open>
  The render routine \<open>ImageCanvas\<close> (\<open>src/src/components/ImageCanvas.tsx\<close>). Its
  props are a record; the canvas element with its 2D context is a record of the bitmap
  size, the context attributes the routine sets, the RGBA pixel buffer and the list of
  text operations drawn over the bitmap (text is drawn last, after the only pixel read, so
  keeping it as operations loses nothing). The browser is a parameter: a
  \<open>'img platform\<close> gives the decoded image's size and draws it through a CSS filter
  string onto the bitmap. Setting \<open>canvas.width\<close> or \<open>canvas.height\<close> resets the
  bitmap to transparent black and the context to its default state, as the HTML standard
  says. The \<open>onload\<close> handler (lines 39--87) is \<open>image_onload\<close>, one definition per
  step; the effect that starts a load (lines 30--90) is \<open>canvas_effect\<close>.
\<close>

subsection \<open>Props, canvas and platform\<close>

record position =
  pos_x :: js_value
  pos_y :: js_value

record canvas_props =
  imageUrl :: string
  cp_brightness :: js_value
  cp_contrast :: js_value
  cp_blur :: js_value
  cp_grayscale :: bool
  cp_overlayText :: string
  cp_textPosition :: position
  cp_textColor :: string
  cp_fontSize :: js_value

record text_style =
  ts_filter :: string
  ts_fillStyle :: string
  ts_strokeStyle :: string
  ts_font :: string
  ts_textAlign :: string
  ts_textBaseline :: string
  ts_lineWidth :: js_number

datatype draw_op =
  StrokeText string js_value js_value text_style
| FillText string js_value js_value text_style

record canvas =
  cv_width :: nat
  cv_height :: nat
  ctx_filter :: string
  ctx_fillStyle :: string
  ctx_strokeStyle :: string
  ctx_font :: string
  ctx_textAlign :: string
  ctx_textBaseline :: string
  ctx_lineWidth :: js_number
  cv_pixels :: "u8 list"
  cv_ops :: "draw_op list"

record 'img platform =
  img_width :: "'img \<Rightarrow> nat"
  img_height :: "'img \<Rightarrow> nat"
  draw_filtered :: "string \<Rightarrow> 'img \<Rightarrow> nat \<Rightarrow> nat \<Rightarrow> u8 list \<Rightarrow> u8 list"

text \<open>A platform draws into a bitmap without changing its size.\<close>

definition platform_ok :: "'img platform \<Rightarrow> bool" where
  "platform_ok P \<longleftrightarrow>
     (\<forall>f i w h px. length px = 4 * w * h \<longrightarrow> length (draw_filtered P f i w h px) = 4 * w * h)"

subsection \<open>The canvas operations the routine calls\<close>

definition reset_context :: "canvas \<Rightarrow> canvas" where
  "reset_context c = c\<lparr>ctx_filter := ''none'', ctx_fillStyle := ''#000000'',
     ctx_strokeStyle := ''#000000'', ctx_font := ''10px sans-serif'', ctx_textAlign := ''start'',
     ctx_textBaseline := ''alphabetic'', ctx_lineWidth := 1\<rparr>"

definition set_width :: "nat \<Rightarrow> canvas \<Rightarrow> canvas" where
  "set_width w c = reset_context
     (c\<lparr>cv_width := w, cv_pixels := replicate (4 * w * cv_height c) 0, cv_ops := []\<rparr>)"

definition set_height :: "nat \<Rightarrow> canvas \<Rightarrow> canvas" where
  "set_height h c = reset_context
     (c\<lparr>cv_height := h, cv_pixels := replicate (4 * cv_width c * h) 0, cv_ops := []\<rparr>)"

text \<open>\<open>ctx.clearRect(0, 0, canvas.width, canvas.height)\<close>: the whole bitmap.\<close>

definition clear_canvas :: "canvas \<Rightarrow> canvas" where
  "clear_canvas c = c\<lparr>cv_pixels := replicate (4 * cv_width c * cv_height c) 0, cv_ops := []\<rparr>"

definition draw_image :: "'img platform \<Rightarrow> 'img \<Rightarrow> canvas \<Rightarrow> canvas" where
  "draw_image P img c =
     c\<lparr>cv_pixels := draw_filtered P (ctx_filter c) img (cv_width c) (cv_height c) (cv_pixels c)\<rparr>"

definition get_image_data :: "canvas \<Rightarrow> u8 list" where
  "get_image_data c = cv_pixels c"

definition put_image_data :: "u8 list \<Rightarrow> canvas \<Rightarrow> canvas" where
  "put_image_data d c = c\<lparr>cv_pixels := d\<rparr>"

definition text_style_of :: "canvas \<Rightarrow> text_style" where
  "text_style_of c = \<lparr>ts_filter = ctx_filter c, ts_fillStyle = ctx_fillStyle c,
     ts_strokeStyle = ctx_strokeStyle c, ts_font = ctx_font c, ts_textAlign = ctx_textAlign c,
     ts_textBaseline = ctx_textBaseline c, ts_lineWidth = ctx_lineWidth c\<rparr>"

definition stroke_text :: "string \<Rightarrow> js_value \<Rightarrow> js_value \<Rightarrow> canvas \<Rightarrow> canvas" where
  "stroke_text s x y c = c\<lparr>cv_ops := cv_ops c @ [StrokeText s x y (text_style_of c)]\<rparr>"

definition fill_text :: "string \<Rightarrow> js_value \<Rightarrow> js_value \<Rightarrow> canvas \<Rightarrow> canvas" where
  "fill_text s x y c = c\<lparr>cv_ops := cv_ops c @ [FillText s x y (text_style_of c)]\<rparr>"

text \<open>\<open>ctx.lineWidth = v\<close> ignores a value that is not positive, \<open>NaN\<close> included.\<close>

definition set_line_width :: "js_value \<Rightarrow> canvas \<Rightarrow> canvas" where
  "set_line_width v c = (case v of Some w \<Rightarrow> if 0 < w then c\<lparr>ctx_lineWidth := w\<rparr> else c | None \<Rightarrow> c)"

text \<open>The state of a canvas just sized to \<open>w \<times> h\<close> and cleared.\<close>

definition blank_canvas :: "nat \<Rightarrow> nat \<Rightarrow> canvas" where
  "blank_canvas w h = \<lparr>cv_width = w, cv_height = h, ctx_filter = ''none'', ctx_fillStyle = ''#000000'',
     ctx_strokeStyle = ''#000000'', ctx_font = ''10px sans-serif'', ctx_textAlign = ''start'',
     ctx_textBaseline = ''alphabetic'', ctx_lineWidth = 1, cv_pixels = replicate (4 * w * h) 0,
     cv_ops = []\<rparr>"

subsection \<open>The steps of the onload handler\<close>

text \<open>Line 48.\<close>

definition filter_string :: "js_value \<Rightarrow> js_value \<Rightarrow> js_value \<Rightarrow> string" where
  "filter_string brightness contrast blur =
     ''brightness('' @ js_value_str (js_add (Some 100) brightness) @ ''%) contrast('' @
     js_value_str (js_add (Some 100) contrast) @ ''%) blur('' @ js_value_str blur @ ''px)''"

text \<open>Lines 54--66.\<close>

definition apply_grayscale :: "bool \<Rightarrow> canvas \<Rightarrow> canvas" where
  "apply_grayscale grayscale c =
     (if grayscale then put_image_data (gray_loop (get_image_data c) 0) c else c)"

text \<open>Lines 68--84: \<open>if (overlayText)\<close> is false for the empty string only.\<close>

definition draw_overlay :: "canvas_props \<Rightarrow> canvas \<Rightarrow> canvas" where
  "draw_overlay p c =
     (if cp_overlayText p = [] then c
      else
        (let c1 = c\<lparr>ctx_filter := ''none'', ctx_fillStyle := cp_textColor p,
                    ctx_font := js_value_str (cp_fontSize p) @ ''px Arial'',
                    ctx_textAlign := ''center'', ctx_textBaseline := ''middle''\<rparr>;
             x = map_option (\<lambda>v. of_nat (cv_width c1) * v / 100) (pos_x (cp_textPosition p));
             y = map_option (\<lambda>v. of_nat (cv_height c1) * v / 100) (pos_y (cp_textPosition p));
             c2 = set_line_width (map_option (\<lambda>v. v / 8) (cp_fontSize p))
                    (c1\<lparr>ctx_strokeStyle := ''black''\<rparr>);
             c3 = stroke_text (cp_overlayText p) x y c2
         in fill_text (cp_overlayText p) x y c3))"

text \<open>Lines 39--85: the whole handler, before the completion callback of line 86.\<close>

definition image_onload :: "'img platform \<Rightarrow> canvas_props \<Rightarrow> 'img \<Rightarrow> canvas \<Rightarrow> canvas" where
  "image_onload P p img c =
     (let c1 = set_height (img_height P img) (set_width (img_width P img) c);
          c2 = clear_canvas c1;
          c3 = c2\<lparr>ctx_filter := filter_string (cp_brightness p) (cp_contrast p) (cp_blur p)\<rparr>;
          c4 = draw_image P img c3;
          c5 = apply_grayscale (cp_grayscale p) c4
      in draw_overlay p c5)"

text \<open>Lines 30--90: with a mounted canvas the effect starts loading \<open>imageUrl\<close>; the
  load, when it succeeds, runs the handler with the props of this render.\<close>

record load_request =
  lr_url :: string
  lr_props :: canvas_props

definition canvas_effect :: "canvas_props \<Rightarrow> canvas option \<Rightarrow> load_request option" where
  "canvas_effect p cv =
     (case cv of None \<Rightarrow> None | Some _ \<Rightarrow> Some \<lparr>lr_url = imageUrl p, lr_props = p\<rparr>)"

subsection \<open>Concrete instances for the witnesses\<close>

text \<open>A platform whose drawing writes the cell index into every cell, and props with the
  overlay and grayscale on.\<close>

definition demo_platform :: "unit platform" where
  "demo_platform = \<lparr>img_width = (\<lambda>_. 2), img_height = (\<lambda>_. 1),
     draw_filtered = (\<lambda>f i w h px. map of_nat [0..<length px])\<rparr>"

definition demo_props :: canvas_props where
  "demo_props = \<lparr>imageUrl = ''photo.png'', cp_brightness = Some 50, cp_contrast = Some 0, cp_blur = Some 0,
     cp_grayscale = True, cp_overlayText = ''Hi'', cp_textPosition = \<lparr>pos_x = Some 50, pos_y = Some 50\<rparr>,
     cp_textColor = ''#ffffff'', cp_fontSize = Some 24\<rparr>"

subsection \<open>Each step's effect on the canvas\<close>

lemma sized_canvas: "clear_canvas (set_height h (set_width w c)) = blank_canvas w h"
  by (cases c) (simp add: clear_canvas_def set_height_def set_width_def reset_context_def blank_canvas_def)

lemma onload_steps:
  "image_onload P p img c =
     draw_overlay p (apply_grayscale (cp_grayscale p) (draw_image P img
       ((blank_canvas (img_width P img) (img_height P img))
          \<lparr>ctx_filter := filter_string (cp_brightness p) (cp_contrast p) (cp_blur p)\<rparr>)))"
  by (simp add: image_onload_def Let_def sized_canvas)

lemma draw_image_frame:
  "cv_width (draw_image P img c) = cv_width c" "cv_height (draw_image P img c) = cv_height c"
  "cv_ops (draw_image P img c) = cv_ops c" "text_style_of (draw_image P img c) = text_style_of c"
  "ctx_lineWidth (draw_image P img c) = ctx_lineWidth c"
  "cv_pixels (draw_image P img c) =
     draw_filtered P (ctx_filter c) img (cv_width c) (cv_height c) (cv_pixels c)"
  by (simp_all add: draw_image_def text_style_of_def)

lemma apply_grayscale_frame:
  "cv_width (apply_grayscale g c) = cv_width c" "cv_height (apply_grayscale g c) = cv_height c"
  "cv_ops (apply_grayscale g c) = cv_ops c" "text_style_of (apply_grayscale g c) = text_style_of c"
  "ctx_lineWidth (apply_grayscale g c) = ctx_lineWidth c"
  "cv_pixels (apply_grayscale g c) = (if g then gray_loop (cv_pixels c) 0 else cv_pixels c)"
  by (simp_all add: apply_grayscale_def put_image_data_def get_image_data_def text_style_of_def)

lemma set_line_width_frame:
  "cv_width (set_line_width v c) = cv_width c" "cv_height (set_line_width v c) = cv_height c"
  "cv_pixels (set_line_width v c) = cv_pixels c" "cv_ops (set_line_width v c) = cv_ops c"
  by (simp_all add: set_line_width_def split: option.split)

lemma draw_overlay_frame:
  "cv_width (draw_overlay p c) = cv_width c" "cv_height (draw_overlay p c) = cv_height c"
  "cv_pixels (draw_overlay p c) = cv_pixels c"
  by (simp_all add: draw_overlay_def Let_def stroke_text_def fill_text_def set_line_width_frame)

lemma draw_overlay_ops:
  "cv_ops (draw_overlay p c) =
     (if cp_overlayText p = [] then cv_ops c
      else (let x = map_option (\<lambda>v. of_nat (cv_width c) * v / 100) (pos_x (cp_textPosition p));
                y = map_option (\<lambda>v. of_nat (cv_height c) * v / 100) (pos_y (cp_textPosition p));
                st = \<lparr>ts_filter = ''none'', ts_fillStyle = cp_textColor p, ts_strokeStyle = ''black'',
                      ts_font = js_value_str (cp_fontSize p) @ ''px Arial'', ts_textAlign = ''center'',
                      ts_textBaseline = ''middle'',
                      ts_lineWidth = (case cp_fontSize p of
                         Some f \<Rightarrow> if 0 < f / 8 then f / 8 else ctx_lineWidth c | None \<Rightarrow> ctx_lineWidth c)\<rparr>
            in cv_ops c @ [StrokeText (cp_overlayText p) x y st, FillText (cp_overlayText p) x y st]))"
  by (simp add: draw_overlay_def Let_def stroke_text_def fill_text_def set_line_width_def text_style_of_def
      split: option.split)

lemma blank_canvas_fields [simp]:
  "cv_width (blank_canvas w h) = w" "cv_height (blank_canvas w h) = h"
  "cv_ops (blank_canvas w h) = []" "ctx_lineWidth (blank_canvas w h) = 1"
  "cv_pixels (blank_canvas w h) = replicate (4 * w * h) 0"
  by (simp_all add: blank_canvas_def)

lemma onload_size_fields:
  "cv_width (image_onload P p img c) = img_width P img"
  "cv_height (image_onload P p img c) = img_height P img"
  by (simp_all add: onload_steps draw_overlay_frame apply_grayscale_frame draw_image_frame)

lemma onload_pixels_eq:
  "cv_pixels (image_onload P p img c) =
     (let w = img_width P img; h = img_height P img;
          px = draw_filtered P (filter_string (cp_brightness p) (cp_contrast p) (cp_blur p)) img w h
                 (replicate (4 * w * h) 0)
      in if cp_grayscale p then gray_loop px 0 else px)"
  by (simp add: onload_steps draw_overlay_frame apply_grayscale_frame draw_image_frame Let_def)

lemma onload_ops_eq:
  "cv_ops (image_onload P p img c) =
     (if cp_overlayText p = [] then []
      else (let x = map_option (\<lambda>v. of_nat (img_width P img) * v / 100) (pos_x (cp_textPosition p));
                y = map_option (\<lambda>v. of_nat (img_height P img) * v / 100) (pos_y (cp_textPosition p));
                st = \<lparr>ts_filter = ''none'', ts_fillStyle = cp_textColor p, ts_strokeStyle = ''black'',
                      ts_font = js_value_str (cp_fontSize p) @ ''px Arial'', ts_textAlign = ''center'',
                      ts_textBaseline = ''middle'',
                      ts_lineWidth = (case cp_fontSize p of
                         Some f \<Rightarrow> if 0 < f / 8 then f / 8 else 1 | None \<Rightarrow> 1)\<rparr>
            in [StrokeText (cp_overlayText p) x y st, FillText (cp_overlayText p) x y st]))"
  by (simp add: onload_steps draw_overlay_ops apply_grayscale_frame draw_image_frame Let_def
      split: option.split)

subsection \<open>Properties of the render routine\<close>

text \<open>C9: the onload handler sizes the canvas to the image, draws the image through exactly
  the filter string of its props onto a cleared bitmap, rewrites the result to grayscale
  when asked, and draws the overlay text, when it is not empty, as a black stroke of width
  \<open>fontSize / 8\<close> and then a fill in the text colour, both centred at
  \<open>(width * x / 100, height * y / 100)\<close> in \<open>fontSize px Arial\<close> with no filter.\<close>

theorem onload_behaviour:
  "cv_width (image_onload P p img c) = img_width P img \<and>
   cv_height (image_onload P p img c) = img_height P img \<and>
   cv_pixels (image_onload P p img c) =
     (let w = img_width P img; h = img_height P img;
          px = draw_filtered P (filter_string (cp_brightness p) (cp_contrast p) (cp_blur p)) img w h
                 (replicate (4 * w * h) 0)
      in if cp_grayscale p then gray_loop px 0 else px) \<and>
   cv_ops (image_onload P p img c) =
     (if cp_overlayText p = [] then []
      else (let x = map_option (\<lambda>v. of_nat (img_width P img) * v / 100) (pos_x (cp_textPosition p));
                y = map_option (\<lambda>v. of_nat (img_height P img) * v / 100) (pos_y (cp_textPosition p));
                st = \<lparr>ts_filter = ''none'', ts_fillStyle = cp_textColor p, ts_strokeStyle = ''black'',
                      ts_font = js_value_str (cp_fontSize p) @ ''px Arial'', ts_textAlign = ''center'',
                      ts_textBaseline = ''middle'',
                      ts_lineWidth = (case cp_fontSize p of
                         Some f \<Rightarrow> if 0 < f / 8 then f / 8 else 1 | None \<Rightarrow> 1)\<rparr>
            in [StrokeText (cp_overlayText p) x y st, FillText (cp_overlayText p) x y st]))"
  by (intro conjI onload_size_fields onload_pixels_eq onload_ops_eq)

text \<open>C18: every render starts from scratch: the canvas the handler leaves does not depend
  on what the canvas held before (sizing the canvas resets bitmap and context), so a
  re-render with the same props and image gives the same picture.\<close>

theorem onload_from_scratch: "image_onload P p img c = image_onload P p img c'"
  by (simp add: onload_steps)

text \<open>On a platform that draws without resizing the bitmap, the pixel buffer the
  handler leaves has exactly \<open>4 * width * height\<close> cells, grayscale or not.\<close>

theorem onload_buffer_size:
  assumes "platform_ok P"
  shows "length (cv_pixels (image_onload P p img c)) =
           4 * cv_width (image_onload P p img c) * cv_height (image_onload P p img c)"
  using assms by (simp add: onload_size_fields onload_pixels_eq platform_ok_def Let_def
      length_gray_loop)

theorem onload_buffer_size_witness:
  "length (cv_pixels (image_onload demo_platform demo_props () (blank_canvas 0 0))) = 8"
proof -
  have ok: "platform_ok demo_platform" by (simp add: platform_ok_def demo_platform_def)
  have "cv_width (image_onload demo_platform demo_props () (blank_canvas 0 0)) = 2"
    "cv_height (image_onload demo_platform demo_props () (blank_canvas 0 0)) = 1"
    by (simp_all add: onload_size_fields demo_platform_def)
  then show ?thesis using onload_buffer_size [OF ok, of demo_props "()" "blank_canvas 0 0"] by simp
qed

text \<open>C19: the grayscale surface shows gray when it carries no text: when
  \<open>grayscale\<close> is set and the overlay text is empty, the handler draws no text, so the
  bitmap is the whole picture, and every pixel of it has equal red, green and blue cells whose
  common value is the rounded mean of the colour the platform drew, with the drawn alpha. With
  text the handler strokes and fills it onto the bitmap after the pass, in the text colour,
  so the glyphs need not be gray.\<close>

theorem grayscale_surface:
  assumes "cp_grayscale p" and "cp_overlayText p = []"
    and "4 * k + 3 < length (cv_pixels (image_onload P p img c))"
  shows "cv_ops (image_onload P p img c) = [] \<and>
         (let px = cv_pixels (image_onload P p img c);
             d = draw_filtered P (filter_string (cp_brightness p) (cp_contrast p) (cp_blur p)) img
                   (img_width P img) (img_height P img)
                   (replicate (4 * img_width P img * img_height P img) 0)
         in px ! (4 * k) = avg3 (d ! (4 * k)) (d ! (4 * k + 1)) (d ! (4 * k + 2)) \<and>
            px ! (4 * k + 1) = px ! (4 * k) \<and> px ! (4 * k + 2) = px ! (4 * k) \<and>
            px ! (4 * k + 3) = d ! (4 * k + 3))"
proof -
  define d where "d = draw_filtered P (filter_string (cp_brightness p) (cp_contrast p) (cp_blur p))
              img (img_width P img) (img_height P img)
              (replicate (4 * img_width P img * img_height P img) 0)"
  have px: "cv_pixels (image_onload P p img c) = gray_pixels d"
    using assms(1) by (simp add: onload_pixels_eq gray_loop_reference d_def Let_def)
  have len: "4 * k + 3 < length d" using assms(3) by (simp only: px length_gray_pixels)
  then have "4 * k + 2 < length d" by simp
  note ch = gray_pixels_channel [OF this]
  have "gray_pixels d ! (4 * k) = avg3 (d ! (4 * k)) (d ! (4 * k + 1)) (d ! (4 * k + 2))"
    using ch [of 0] by simp
  moreover have "gray_pixels d ! (4 * k + 1) = gray_pixels d ! (4 * k)"
    using ch [of 0] ch [of 1] by simp
  moreover have "gray_pixels d ! (4 * k + 2) = gray_pixels d ! (4 * k)"
    using ch [of 0] ch [of 2] by simp
  moreover have "gray_pixels d ! (4 * k + 3) = d ! (4 * k + 3)"
    using len by (rule gray_pixels_alpha)
  moreover have "cv_ops (image_onload P p img c) = []" using assms(2) by (simp add: onload_ops_eq)
  ultimately show ?thesis unfolding Let_def px d_def [symmetric] by blast
qed

theorem grayscale_surface_witness:
  "cv_ops (image_onload demo_platform (demo_props\<lparr>cp_overlayText := []\<rparr>) () (blank_canvas 0 0)) = [] \<and>
   cv_pixels (image_onload demo_platform (demo_props\<lparr>cp_overlayText := []\<rparr>) () (blank_canvas 0 0)) ! 0 = 1 \<and>
   cv_pixels (image_onload demo_platform (demo_props\<lparr>cp_overlayText := []\<rparr>) () (blank_canvas 0 0)) ! 4 = 5 \<and>
   cv_pixels (image_onload demo_platform (demo_props\<lparr>cp_overlayText := []\<rparr>) () (blank_canvas 0 0)) ! 7 = 7"
proof -
  have g: "cp_grayscale (demo_props\<lparr>cp_overlayText := []\<rparr>)" by (simp add: demo_props_def)
  have t: "cp_overlayText (demo_props\<lparr>cp_overlayText := []\<rparr>) = []" by simp
  have wh: "img_width demo_platform () = 2" "img_height demo_platform () = 1"
    by (simp_all add: demo_platform_def)
  have d: "draw_filtered demo_platform f () 2 (Suc 0) (replicate 8 0) = map of_nat [0..<8]" for f
    by (simp add: demo_platform_def)
  have "length (cv_pixels (image_onload demo_platform (demo_props\<lparr>cp_overlayText := []\<rparr>) () (blank_canvas 0 0))) = 8"
    by (simp add: onload_pixels_eq wh d Let_def)
  then have l0: "4 * 0 + 3 < length (cv_pixels (image_onload demo_platform (demo_props\<lparr>cp_overlayText := []\<rparr>) () (blank_canvas 0 0)))"
    and l1: "4 * 1 + 3 < length (cv_pixels (image_onload demo_platform (demo_props\<lparr>cp_overlayText := []\<rparr>) () (blank_canvas 0 0)))"
    by simp_all
  have nth: "(map of_nat [0..<8] :: u8 list) ! k = of_nat k" if "k < 8" for k
    using that by simp
  have "avg3 0 1 2 = 1" "avg3 4 5 6 = 5" by (simp_all add: avg3_def)
  then show ?thesis
    using grayscale_surface [OF g t l0] grayscale_surface [OF g t l1] by (simp add: wh d nth Let_def)
qed

end
