(* ===== verification/Panels.thy ===== *)
theory Panels
  imports ImageCanvas
begin

text \<open>
  The two control panels, \<open>src/src/components/Controls.tsx\<close> and
  \<open>src/src/components/TextOverlay.tsx\<close>. They keep no state: each input's
  \<open>onChange\<close> calls a callback of the props with the new value. An input event is a
  datatype value (what the user did), a callback invocation is another (what the panel
  passes up), and \<open>controls_onchange\<close> and \<open>overlay_onchange\<close> are the
  \<open>onChange\<close> handlers. A range input holds its value as a string that the browser
  sanitises (HTML value sanitisation of \<open>type=range\<close>: clamp to \<open>[min, max]\<close>, then
  round to the nearest step above \<open>min\<close>, ties upwards, stepping back if that passes
  \<open>max\<close>); \<open>Number(e.target.value)\<close> reads it back.
\<close>

subsection \<open>Range inputs\<close>

definition range_sanitize :: "rat \<Rightarrow> rat \<Rightarrow> rat \<Rightarrow> rat \<Rightarrow> rat" where
  "range_sanitize lo hi step v =
     (let c = max lo (min hi v); k = \<lfloor>(c - lo) / step + 1 / 2\<rfloor>; r = lo + of_int k * step
      in if hi < r then r - step else r)"

definition range_value :: "rat \<Rightarrow> rat \<Rightarrow> rat \<Rightarrow> rat \<Rightarrow> string" where
  "range_value lo hi step v = js_num_str (range_sanitize lo hi step v)"

text \<open>A number on the grid of a slider: in \<open>[lo, hi]\<close> and a whole number of steps
  above \<open>lo\<close>.\<close>

definition on_grid :: "rat \<Rightarrow> rat \<Rightarrow> rat \<Rightarrow> js_value \<Rightarrow> bool" where
  "on_grid lo hi step v =
     (case v of None \<Rightarrow> False
      | Some r \<Rightarrow> lo \<le> r \<and> r \<le> hi \<and> of_int \<lfloor>(r - lo) / step\<rfloor> = (r - lo) / step)"

subsection \<open>Controls.tsx\<close>

datatype controls_input =
  BrightnessDrag rat
| ContrastDrag rat
| BlurDrag rat
| GrayscaleToggle bool

datatype controls_callback =
  OnBrightnessChange js_value
| OnContrastChange js_value
| OnBlurChange js_value
| OnGrayscaleChange bool

fun controls_onchange :: "controls_input \<Rightarrow> controls_callback" where
  "controls_onchange (BrightnessDrag v) = OnBrightnessChange (js_Number (range_value (-100) 100 1 v))"
| "controls_onchange (ContrastDrag v) = OnContrastChange (js_Number (range_value (-100) 100 1 v))"
| "controls_onchange (BlurDrag v) = OnBlurChange (js_Number (range_value 0 10 (1 / 2) v))"
| "controls_onchange (GrayscaleToggle b) = OnGrayscaleChange b"

text \<open>The labels next to the inputs (\<open>{brightness}%\<close>, \<open>{contrast}%\<close>,
  \<open>{blur}px\<close>).\<close>

definition controls_labels :: "js_value \<Rightarrow> js_value \<Rightarrow> js_value \<Rightarrow> string list" where
  "controls_labels brightness contrast blur =
     [js_value_str brightness @ ''%'', js_value_str contrast @ ''%'', js_value_str blur @ ''px'']"

text \<open>What the specification documents of each callback: the slider's value on its grid.\<close>

fun controls_ok :: "controls_callback \<Rightarrow> bool" where
  "controls_ok (OnBrightnessChange v) = on_grid (-100) 100 1 v"
| "controls_ok (OnContrastChange v) = on_grid (-100) 100 1 v"
| "controls_ok (OnBlurChange v) = on_grid 0 10 (1 / 2) v"
| "controls_ok (OnGrayscaleChange b) = True"

subsection \<open>TextOverlay.tsx\<close>

datatype overlay_input =
  TextTyped string
| ColorPicked string
| FontSizeDrag rat
| XDrag rat
| YDrag rat

datatype overlay_callback =
  OnTextChange string
| OnColorChange string
| OnFontSizeChange js_value
| OnPositionChange position

text \<open>The position sliders spread the current \<open>textPosition\<close> prop and override one
  axis.\<close>

fun overlay_onchange :: "position \<Rightarrow> overlay_input \<Rightarrow> overlay_callback" where
  "overlay_onchange tp (TextTyped s) = OnTextChange s"
| "overlay_onchange tp (ColorPicked c) = OnColorChange c"
| "overlay_onchange tp (FontSizeDrag v) = OnFontSizeChange (js_Number (range_value 12 72 1 v))"
| "overlay_onchange tp (XDrag v) = OnPositionChange (tp\<lparr>pos_x := js_Number (range_value 0 100 1 v)\<rparr>)"
| "overlay_onchange tp (YDrag v) = OnPositionChange (tp\<lparr>pos_y := js_Number (range_value 0 100 1 v)\<rparr>)"

definition position_ok :: "position \<Rightarrow> bool" where
  "position_ok tp \<longleftrightarrow> on_grid 0 100 1 (pos_x tp) \<and> on_grid 0 100 1 (pos_y tp)"

fun overlay_ok :: "overlay_callback \<Rightarrow> bool" where
  "overlay_ok (OnTextChange s) = True"
| "overlay_ok (OnColorChange c) = True"
| "overlay_ok (OnFontSizeChange v) = on_grid 12 72 1 v"
| "overlay_ok (OnPositionChange tp) = position_ok tp"

definition overlay_labels :: "js_value \<Rightarrow> position \<Rightarrow> string list" where
  "overlay_labels fontSize tp =
     [js_value_str fontSize @ ''px'', js_value_str (pos_x tp) @ ''%'', js_value_str (pos_y tp) @ ''%'']"

subsection \<open>The sanitised value of a range input\<close>

lemma range_sanitize_bounds:
  assumes "0 < step" "lo \<le> hi"
  shows "lo \<le> range_sanitize lo hi step v \<and> range_sanitize lo hi step v \<le> hi \<and>
         (\<exists>k::int. range_sanitize lo hi step v = lo + of_int k * step)"
proof -
  define c where "c = max lo (min hi v)"
  define k where "k = \<lfloor>(c - lo) / step + 1 / 2\<rfloor>"
  have c: "lo \<le> c" "c \<le> hi" using assms(2) by (auto simp: c_def)
  have "0 \<le> (c - lo) / step" using c assms(1) by simp
  then have k0: "0 \<le> k" unfolding k_def by linarith
  have "of_int k \<le> (c - lo) / step + 1 / 2" unfolding k_def by (rule of_int_floor_le)
  then have "of_int k * step \<le> ((c - lo) / step + 1 / 2) * step"
    using assms(1) by (intro mult_right_mono) simp_all
  moreover have "((c - lo) / step + 1 / 2) * step = c - lo + step / 2"
    using assms(1) by (simp add: field_simps)
  ultimately have up: "of_int k * step \<le> c - lo + step / 2" by simp
  have r_lo: "lo \<le> lo + of_int k * step" using k0 assms(1) by simp
  show ?thesis
  proof (cases "hi < lo + of_int k * step")
    case True
    then have "k \<noteq> 0" using assms(2) by auto
    with k0 have "1 \<le> k" by simp
    then have "1 * step \<le> of_int k * step" using assms(1) by (intro mult_right_mono) simp_all
    moreover have "lo + of_int k * step - step = lo + of_int (k - 1) * step" by (simp add: algebra_simps)
    ultimately show ?thesis
      using True up c assms unfolding range_sanitize_def Let_def c_def [symmetric] k_def [symmetric]
      by (auto intro: exI [of _ "k - 1"])
  next
    case False
    then show ?thesis
      using r_lo unfolding range_sanitize_def Let_def c_def [symmetric] k_def [symmetric] by auto
  qed
qed

text \<open>On the four grids the panels use, the sanitised value is a half-integer, so the value
  string reads back to it.\<close>

lemma range_value_number:
  assumes "0 < step" "lo \<le> hi" "of_int \<lfloor>lo\<rfloor> = lo" "step = 1 \<or> step = 1 / 2"
  shows "js_Number (range_value lo hi step v) = Some (range_sanitize lo hi step v) \<and>
         on_grid lo hi step (Some (range_sanitize lo hi step v))"
proof -
  obtain k :: int where k: "range_sanitize lo hi step v = lo + of_int k * step"
    and b: "lo \<le> range_sanitize lo hi step v" "range_sanitize lo hi step v \<le> hi"
    using range_sanitize_bounds [OF assms(1,2)] by blast
  have "2 * range_sanitize lo hi step v = of_int (2 * \<lfloor>lo\<rfloor> + k * \<lfloor>2 * step\<rfloor>)"
    using assms(3,4) by (auto simp: k algebra_simps)
  then have "of_int \<lfloor>2 * range_sanitize lo hi step v\<rfloor> = 2 * range_sanitize lo hi step v"
    by (metis floor_of_int)
  then have "js_Number (range_value lo hi step v) = Some (range_sanitize lo hi step v)"
    by (simp add: range_value_def js_Number_num_str)
  moreover have "(range_sanitize lo hi step v - lo) / step = of_int k" using assms(1) by (simp add: k)
  ultimately show ?thesis using b by (simp add: on_grid_def)
qed

lemma slider_values:
  "js_Number (range_value (-100) 100 1 v) = Some (range_sanitize (-100) 100 1 v)"
  "on_grid (-100) 100 1 (Some (range_sanitize (-100) 100 1 v))"
  "js_Number (range_value 0 10 (1 / 2) v) = Some (range_sanitize 0 10 (1 / 2) v)"
  "on_grid 0 10 (1 / 2) (Some (range_sanitize 0 10 (1 / 2) v))"
  "js_Number (range_value 12 72 1 v) = Some (range_sanitize 12 72 1 v)"
  "on_grid 12 72 1 (Some (range_sanitize 12 72 1 v))"
  "js_Number (range_value 0 100 1 v) = Some (range_sanitize 0 100 1 v)"
  "on_grid 0 100 1 (Some (range_sanitize 0 100 1 v))"
  using range_value_number [of 1 "-100" 100 v] range_value_number [of "1 / 2" 0 10 v]
    range_value_number [of 1 12 72 v] range_value_number [of 1 0 100 v]
  by simp_all

subsection \<open>Properties of the panels\<close>

text \<open>C20: every callback the filter panel fires carries the slider's value, never
  \<open>NaN\<close>, inside the documented range and on the slider's step grid: brightness and
  contrast integers in \<open>[-100, 100]\<close>, blur a multiple of 0.5 in \<open>[0, 10]\<close>.\<close>

theorem controls_callback_in_range: "controls_ok (controls_onchange i)"
  by (cases i) (simp_all add: slider_values)

text \<open>C21: every callback the text panel fires is in range (font size an integer in
  \<open>[12, 72]\<close>, both axes integers in \<open>[0, 100]\<close>) when the position it was given is.\<close>

theorem overlay_callback_in_range:
  assumes "position_ok tp"
  shows "overlay_ok (overlay_onchange tp i)"
  using assms by (cases i) (simp_all add: slider_values position_ok_def)

theorem overlay_callback_in_range_witness:
  "overlay_ok (overlay_onchange \<lparr>pos_x = Some 50, pos_y = Some 50\<rparr> (XDrag 120))"
  by (rule overlay_callback_in_range) (simp add: position_ok_def on_grid_def)

text \<open>C22: moving one position slider keeps the other axis: the position passed up is the
  current one with only the dragged axis replaced by the slider's value.\<close>

theorem position_update_keeps_axis:
  "overlay_onchange tp (XDrag v) =
     OnPositionChange \<lparr>pos_x = Some (range_sanitize 0 100 1 v), pos_y = pos_y tp\<rparr> \<and>
   overlay_onchange tp (YDrag v) =
     OnPositionChange \<lparr>pos_x = pos_x tp, pos_y = Some (range_sanitize 0 100 1 v)\<rparr>"
  by (simp add: slider_values)

end
