(* ===== verification/App.thy ===== *)
theory App
  imports Panels
begin

text \<open>
  The root component \<open>App\<close> (\<open>src/src/App.tsx\<close>): its state, its handlers and what
  it renders. \<open>ImageState\<close> is a record, \<open>Partial<ImageState>\<close> a record of optional
  fields merged by object spread, and the component's three \<open>useState\<close> hooks one record
  \<open>app_state\<close>. Each handler is a function on \<open>app_state\<close>; the array writes
  \<open>newStates[index] = ...\<close> are list updates, which agree with JavaScript on the indices
  the handlers receive (always the active tab, kept below 3 by the invariant of theory
  \<open>Events\<close>). The JSX (lines 83--237) is \<open>app_view\<close>: which tab button is
  highlighted, the spinner flags, the props of the three canvases and the panel labels.
\<close>

subsection \<open>State\<close>

record image_state =
  currentImage :: string
  brightness :: js_value
  contrast :: js_value
  blur :: js_value
  grayscale :: bool
  overlayText :: string
  textPosition :: position
  textColor :: string
  fontSize :: js_value

definition DEFAULT_IMAGE :: string where
  "DEFAULT_IMAGE =
     ''https://images.unsplash.com/photo-1682687220742-aba13b6e50ba?auto=format&fit=crop&q=80&w=1000''"

definition defaultImageState :: image_state where
  "defaultImageState =
     \<lparr>currentImage = DEFAULT_IMAGE, brightness = Some 0, contrast = Some 0, blur = Some 0,
      grayscale = False, overlayText = [], textPosition = \<lparr>pos_x = Some 50, pos_y = Some 50\<rparr>,
      textColor = ''#ffffff'', fontSize = Some 24\<rparr>"

record partial_state =
  set_currentImage :: "string option"
  set_brightness :: "js_value option"
  set_contrast :: "js_value option"
  set_blur :: "js_value option"
  set_grayscale :: "bool option"
  set_overlayText :: "string option"
  set_textPosition :: "position option"
  set_textColor :: "string option"
  set_fontSize :: "js_value option"

text \<open>The object literal \<open>{}\<close>; the handlers add one key to it.\<close>

definition no_fields :: partial_state where
  "no_fields = \<lparr>set_currentImage = None, set_brightness = None, set_contrast = None, set_blur = None,
     set_grayscale = None, set_overlayText = None, set_textPosition = None, set_textColor = None,
     set_fontSize = None\<rparr>"

text \<open>\<open>{ ...s, ...updates }\<close>: a key present in \<open>updates\<close> wins.\<close>

definition merge_state :: "image_state \<Rightarrow> partial_state \<Rightarrow> image_state" where
  "merge_state s u =
     \<lparr>currentImage = override (currentImage s) (set_currentImage u),
      brightness = override (brightness s) (set_brightness u),
      contrast = override (contrast s) (set_contrast u),
      blur = override (blur s) (set_blur u),
      grayscale = override (grayscale s) (set_grayscale u),
      overlayText = override (overlayText s) (set_overlayText u),
      textPosition = override (textPosition s) (set_textPosition u),
      textColor = override (textColor s) (set_textColor u),
      fontSize = override (fontSize s) (set_fontSize u)\<rparr>"

record app_state =
  activeTab :: nat
  isLoading :: bool
  imageStates :: "image_state list"

definition app_init :: app_state where
  "app_init = \<lparr>activeTab = 0, isLoading = True,
     imageStates = [defaultImageState, defaultImageState, defaultImageState]\<rparr>"

definition tabs :: "string list" where
  "tabs = [''Layout 1'', ''Layout 2'', ''Layout 3'']"

subsection \<open>Handlers\<close>

definition setActiveTab :: "nat \<Rightarrow> app_state \<Rightarrow> app_state" where
  "setActiveTab i st = st\<lparr>activeTab := i\<rparr>"

definition setIsLoading :: "bool \<Rightarrow> app_state \<Rightarrow> app_state" where
  "setIsLoading b st = st\<lparr>isLoading := b\<rparr>"

definition handleReset :: "nat \<Rightarrow> app_state \<Rightarrow> app_state" where
  "handleReset index st = st\<lparr>imageStates := (imageStates st)[index := defaultImageState]\<rparr>"

definition updateImageState :: "nat \<Rightarrow> partial_state \<Rightarrow> app_state \<Rightarrow> app_state" where
  "updateImageState index updates st =
     st\<lparr>imageStates := (imageStates st)[index := merge_state (imageStates st ! index) updates]\<rparr>"

text \<open>\<open>reader.onloadend\<close> (lines 61--70): the result is a data URL, or \<open>null\<close> when the
  read failed; the state keeps that \<open>null\<close>, which reaches the canvas as \<open>image.src\<close>
  and is stringified there, so it is kept as the string \<open>null\<close>.\<close>

definition reader_onloadend :: "nat \<Rightarrow> string option \<Rightarrow> app_state \<Rightarrow> app_state" where
  "reader_onloadend index result st =
     st\<lparr>imageStates := (imageStates st)[index :=
        (imageStates st ! index)\<lparr>currentImage := (case result of Some url \<Rightarrow> url | None \<Rightarrow> ''null'')\<rparr>]\<rparr>"

text \<open>\<open>handleImageUpload\<close> (lines 56--73), synchronous part: with a chosen file it raises
  the loading flag and starts a read for \<open>index\<close>; it returns the read it started.\<close>

definition handleImageUpload :: "'f option \<Rightarrow> nat \<Rightarrow> app_state \<Rightarrow> app_state \<times> (nat \<times> 'f) option" where
  "handleImageUpload file index st =
     (case file of None \<Rightarrow> (st, None) | Some f \<Rightarrow> (setIsLoading True st, Some (index, f)))"

subsection \<open>Wiring the panels\<close>

text \<open>Lines 153--162 and 164--173: each callback becomes an update of the active tab with
  one key.\<close>

fun controls_update :: "controls_callback \<Rightarrow> partial_state" where
  "controls_update (OnBrightnessChange v) = no_fields\<lparr>set_brightness := Some v\<rparr>"
| "controls_update (OnContrastChange v) = no_fields\<lparr>set_contrast := Some v\<rparr>"
| "controls_update (OnBlurChange v) = no_fields\<lparr>set_blur := Some v\<rparr>"
| "controls_update (OnGrayscaleChange b) = no_fields\<lparr>set_grayscale := Some b\<rparr>"

fun overlay_update :: "overlay_callback \<Rightarrow> partial_state" where
  "overlay_update (OnTextChange s) = no_fields\<lparr>set_overlayText := Some s\<rparr>"
| "overlay_update (OnColorChange c) = no_fields\<lparr>set_textColor := Some c\<rparr>"
| "overlay_update (OnFontSizeChange v) = no_fields\<lparr>set_fontSize := Some v\<rparr>"
| "overlay_update (OnPositionChange tp) = no_fields\<lparr>set_textPosition := Some tp\<rparr>"

text \<open>What each panel input does to the edited tab, as the specification states it: the
  field the input names is set to the value the input shows.\<close>

fun controls_spec :: "controls_input \<Rightarrow> image_state \<Rightarrow> image_state" where
  "controls_spec (BrightnessDrag v) s = s\<lparr>brightness := Some (range_sanitize (-100) 100 1 v)\<rparr>"
| "controls_spec (ContrastDrag v) s = s\<lparr>contrast := Some (range_sanitize (-100) 100 1 v)\<rparr>"
| "controls_spec (BlurDrag v) s = s\<lparr>blur := Some (range_sanitize 0 10 (1 / 2) v)\<rparr>"
| "controls_spec (GrayscaleToggle b) s = s\<lparr>grayscale := b\<rparr>"

fun overlay_spec :: "overlay_input \<Rightarrow> image_state \<Rightarrow> image_state" where
  "overlay_spec (TextTyped t) s = s\<lparr>overlayText := t\<rparr>"
| "overlay_spec (ColorPicked c) s = s\<lparr>textColor := c\<rparr>"
| "overlay_spec (FontSizeDrag v) s = s\<lparr>fontSize := Some (range_sanitize 12 72 1 v)\<rparr>"
| "overlay_spec (XDrag v) s =
     s\<lparr>textPosition := (textPosition s)\<lparr>pos_x := Some (range_sanitize 0 100 1 v)\<rparr>\<rparr>"
| "overlay_spec (YDrag v) s =
     s\<lparr>textPosition := (textPosition s)\<lparr>pos_y := Some (range_sanitize 0 100 1 v)\<rparr>\<rparr>"

subsection \<open>The three surfaces and the view\<close>

datatype surface = OriginalSurface | ProcessedSurface | GrayscaleSurface

definition surfaces :: "surface list" where
  "surfaces = [OriginalSurface, ProcessedSurface, GrayscaleSurface]"

text \<open>Lines 124--135, 194--205 and 218--229.\<close>

fun surface_props :: "surface \<Rightarrow> image_state \<Rightarrow> canvas_props" where
  "surface_props OriginalSurface s =
     \<lparr>imageUrl = currentImage s, cp_brightness = Some 0, cp_contrast = Some 0, cp_blur = Some 0,
      cp_grayscale = False, cp_overlayText = [], cp_textPosition = textPosition s,
      cp_textColor = textColor s, cp_fontSize = fontSize s\<rparr>"
| "surface_props ProcessedSurface s =
     \<lparr>imageUrl = currentImage s, cp_brightness = brightness s, cp_contrast = contrast s,
      cp_blur = blur s, cp_grayscale = grayscale s, cp_overlayText = overlayText s,
      cp_textPosition = textPosition s, cp_textColor = textColor s, cp_fontSize = fontSize s\<rparr>"
| "surface_props GrayscaleSurface s =
     \<lparr>imageUrl = currentImage s, cp_brightness = brightness s, cp_contrast = contrast s,
      cp_blur = blur s, cp_grayscale = True, cp_overlayText = overlayText s,
      cp_textPosition = textPosition s, cp_textColor = textColor s, cp_fontSize = fontSize s\<rparr>"

record app_view =
  tab_highlighted :: "bool list"
  spinner_shown :: "bool list"
  canvas_props_of :: "(surface \<times> canvas_props) list"
  controls_text :: "string list"
  overlay_text :: "string list"

definition app_view :: "app_state \<Rightarrow> app_view" where
  "app_view st =
     (let s = imageStates st ! activeTab st
      in \<lparr>tab_highlighted = map (\<lambda>i. activeTab st = i) [0..<length tabs],
          spinner_shown = map (\<lambda>_. isLoading st) surfaces,
          canvas_props_of = map (\<lambda>sf. (sf, surface_props sf s)) surfaces,
          controls_text = controls_labels (brightness s) (contrast s) (blur s),
          overlay_text = overlay_labels (fontSize s) (textPosition s)\<rparr>)"

subsection \<open>The state invariant\<close>

text \<open>Every numeric field of a tab is a number on its slider's grid, and the state has one
  tab per tab button with the active index among them.\<close>

definition state_ok :: "image_state \<Rightarrow> bool" where
  "state_ok s \<longleftrightarrow>
     on_grid (-100) 100 1 (brightness s) \<and> on_grid (-100) 100 1 (contrast s) \<and>
     on_grid 0 10 (1 / 2) (blur s) \<and> on_grid 12 72 1 (fontSize s) \<and> position_ok (textPosition s)"

definition app_ok :: "app_state \<Rightarrow> bool" where
  "app_ok st \<longleftrightarrow>
     length (imageStates st) = length tabs \<and> activeTab st < length tabs \<and> list_all state_ok (imageStates st)"

subsection \<open>Lemmas on the handlers\<close>

declare setActiveTab_def [app_simps] setIsLoading_def [app_simps] handleReset_def [app_simps]
  updateImageState_def [app_simps] reader_onloadend_def [app_simps] handleImageUpload_def [app_simps]

lemma length_tabs [simp]: "length tabs = 3"
  by (simp add: tabs_def)

lemma merge_one_field [simp]:
  "merge_state s (no_fields\<lparr>set_currentImage := Some u\<rparr>) = s\<lparr>currentImage := u\<rparr>"
  "merge_state s (no_fields\<lparr>set_brightness := Some v\<rparr>) = s\<lparr>brightness := v\<rparr>"
  "merge_state s (no_fields\<lparr>set_contrast := Some v\<rparr>) = s\<lparr>contrast := v\<rparr>"
  "merge_state s (no_fields\<lparr>set_blur := Some v\<rparr>) = s\<lparr>blur := v\<rparr>"
  "merge_state s (no_fields\<lparr>set_grayscale := Some b\<rparr>) = s\<lparr>grayscale := b\<rparr>"
  "merge_state s (no_fields\<lparr>set_overlayText := Some t\<rparr>) = s\<lparr>overlayText := t\<rparr>"
  "merge_state s (no_fields\<lparr>set_textPosition := Some tp\<rparr>) = s\<lparr>textPosition := tp\<rparr>"
  "merge_state s (no_fields\<lparr>set_textColor := Some c\<rparr>) = s\<lparr>textColor := c\<rparr>"
  "merge_state s (no_fields\<lparr>set_fontSize := Some v\<rparr>) = s\<lparr>fontSize := v\<rparr>"
  by (simp_all add: merge_state_def no_fields_def)

lemma controls_merge: "merge_state s (controls_update (controls_onchange e)) = controls_spec e s"
  by (cases e) (simp_all add: slider_values)

lemma overlay_merge:
  "merge_state s (overlay_update (overlay_onchange (textPosition s) e)) = overlay_spec e s"
  by (cases e) (simp_all add: slider_values)

lemma state_ok_default [simp]: "state_ok defaultImageState"
  by (simp add: state_ok_def defaultImageState_def on_grid_def position_ok_def)

lemma state_ok_currentImage [simp]: "state_ok (s\<lparr>currentImage := u\<rparr>) = state_ok s"
  by (simp add: state_ok_def)

lemma state_ok_controls_spec: "state_ok s \<Longrightarrow> state_ok (controls_spec e s)"
  by (cases e) (simp_all add: state_ok_def slider_values)

lemma state_ok_overlay_spec: "state_ok s \<Longrightarrow> state_ok (overlay_spec e s)"
  by (cases e) (simp_all add: state_ok_def position_ok_def slider_values)

lemma app_ok_tab: "app_ok st \<Longrightarrow> i < length (imageStates st) \<Longrightarrow> state_ok (imageStates st ! i)"
  by (simp add: app_ok_def list_all_length)

lemma app_ok_states_update:
  "app_ok st \<Longrightarrow> state_ok v \<Longrightarrow> app_ok (st\<lparr>imageStates := (imageStates st)[i := v]\<rparr>)"
  by (simp add: app_ok_def list_all_update)

lemma app_ok_setActiveTab: "i < length tabs \<Longrightarrow> app_ok st \<Longrightarrow> app_ok (setActiveTab i st)"
  by (simp add: app_ok_def setActiveTab_def)

lemma app_ok_setIsLoading: "app_ok st \<Longrightarrow> app_ok (setIsLoading b st)"
  by (simp add: app_ok_def setIsLoading_def)

lemma app_ok_handleReset: "app_ok st \<Longrightarrow> app_ok (handleReset i st)"
  unfolding handleReset_def by (rule app_ok_states_update) simp_all

lemma app_ok_reader_onloadend:
  "app_ok st \<Longrightarrow> i < length tabs \<Longrightarrow> app_ok (reader_onloadend i r st)"
  unfolding reader_onloadend_def
  by (intro app_ok_states_update) (simp_all add: app_ok_tab app_ok_def)

lemma app_ok_handleImageUpload: "app_ok st \<Longrightarrow> app_ok (fst (handleImageUpload f i st))"
  by (cases f) (simp_all add: handleImageUpload_def app_ok_setIsLoading)

lemma app_ok_updates:
  "app_ok st \<Longrightarrow> app_ok (updateImageState (activeTab st) (controls_update (controls_onchange e)) st)"
  "app_ok st \<Longrightarrow>
     app_ok (updateImageState (activeTab st)
       (overlay_update (overlay_onchange (textPosition (imageStates st ! activeTab st)) e')) st)"
  unfolding updateImageState_def controls_merge overlay_merge
  by (intro app_ok_states_update state_ok_controls_spec state_ok_overlay_spec app_ok_tab;
      simp add: app_ok_def)+

lemmas app_ok_handlers = app_ok_setActiveTab app_ok_setIsLoading app_ok_handleReset
  app_ok_reader_onloadend app_ok_handleImageUpload app_ok_updates

lemma setIsLoading_same [simp]: "setIsLoading b st = st \<longleftrightarrow> isLoading st = b"
  by (cases st) (auto simp: setIsLoading_def)

lemma app_ok_init: "app_ok app_init"
  by (simp add: app_ok_def app_init_def tabs_def)

subsection \<open>Properties of the view\<close>

text \<open>C23: what the page shows depends on the active tab only: replacing the state of any
  other tab changes neither the highlighted button, the spinners, the props of the three
  canvases nor the labels of the panels.\<close>

theorem view_ignores_other_tabs:
  assumes "j \<noteq> activeTab st"
  shows "app_view (st\<lparr>imageStates := (imageStates st)[j := x]\<rparr>) = app_view st"
  using assms by (simp add: app_view_def)

theorem view_ignores_other_tabs_witness:
  "app_view (app_init\<lparr>imageStates := (imageStates app_init)[1 := defaultImageState\<lparr>overlayText := ''Hi''\<rparr>]\<rparr>) =
     app_view app_init"
  by (rule view_ignores_other_tabs) (simp add: app_init_def)

end
