(* ===== verification/Events.thy ===== *)
theory Events
  imports App
begin

text \<open>
  The application as a reactive system (\<open>src/src/App.tsx\<close> with the three
  \<open>ImageCanvas\<close> instances it renders). Besides the state of \<open>App\<close>, a system state
  holds the asynchronous work in flight, the FileReader reads started by uploads (each with
  the tab index captured when it started) and the image loads started by the canvases'
  effects (each with the props of the render that started it), and the three canvases.
  React renders \<open>App\<close> again after a handler when a hook's value changed; the array
  hook always gets a fresh array, the other two are compared by value. Every render runs the
  three canvases' effects again, because the \<open>onImageLoad\<close> arrow function is new on
  each render and is one of the effects' dependencies; so every render starts three loads
  (\<open>render_loads\<close>). A step of the system (\<open>sys_step\<close>) is a user event, a read that
  finishes, or an image load that succeeds, in any order; a load whose image does not
  decode never finishes, as nothing handles \<open>onerror\<close>.
\<close>

subsection \<open>System state and rendering\<close>

record 'f system =
  sys_app :: app_state
  sys_reads :: "(nat \<times> 'f) list"
  sys_loads :: "(surface \<times> load_request) list"
  sys_canvas :: "surface \<Rightarrow> canvas"

definition render_loads :: "app_state \<Rightarrow> (surface \<Rightarrow> canvas) \<Rightarrow> (surface \<times> load_request) list" where
  "render_loads st cv =
     concat (map (\<lambda>sf. case canvas_effect (surface_props sf (imageStates st ! activeTab st)) (Some (cv sf)) of
                          None \<Rightarrow> [] | Some r \<Rightarrow> [(sf, r)]) surfaces)"

definition commit :: "bool \<Rightarrow> app_state \<Rightarrow> 'f system \<Rightarrow> 'f system" where
  "commit fresh st' s =
     (let s' = s\<lparr>sys_app := st'\<rparr>
      in if fresh \<or> st' \<noteq> sys_app s then s'\<lparr>sys_loads := sys_loads s' @ render_loads st' (sys_canvas s')\<rparr>
         else s')"

subsection \<open>Events\<close>

datatype 'f ui_event =
  TabClick nat
| ResetClick
| FileChosen "'f option"
| ControlsEvent controls_input
| OverlayEvent overlay_input

fun ui_handler :: "'f ui_event \<Rightarrow> 'f system \<Rightarrow> 'f system" where
  "ui_handler (TabClick i) s = commit False (setActiveTab i (sys_app s)) s"
| "ui_handler ResetClick s = commit True (handleReset (activeTab (sys_app s)) (sys_app s)) s"
| "ui_handler (FileChosen f) s =
     (case handleImageUpload f (activeTab (sys_app s)) (sys_app s) of
        (st', started) \<Rightarrow>
          commit False st' (s\<lparr>sys_reads := sys_reads s @ (case started of None \<Rightarrow> [] | Some r \<Rightarrow> [r])\<rparr>))"
| "ui_handler (ControlsEvent e) s =
     commit True (updateImageState (activeTab (sys_app s)) (controls_update (controls_onchange e)) (sys_app s)) s"
| "ui_handler (OverlayEvent e) s =
     (let st = sys_app s
      in commit True (updateImageState (activeTab st)
           (overlay_update (overlay_onchange (textPosition (imageStates st ! activeTab st)) e)) st) s)"

text \<open>The events the rendered page can fire: the tab buttons are rendered from
  \<open>tabs.map((tab, index) => ...)\<close> (lines 87--100), so a click passes an index of
  \<open>tabs\<close>.\<close>

fun ui_ok :: "'f ui_event \<Rightarrow> bool" where
  "ui_ok (TabClick i) \<longleftrightarrow> i < length tabs"
| "ui_ok _ \<longleftrightarrow> True"

text \<open>The \<open>j\<close>-th read finishes with \<open>result\<close>.\<close>

definition read_done :: "nat \<Rightarrow> string option \<Rightarrow> 'f system \<Rightarrow> 'f system" where
  "read_done j result s =
     (let index = fst (sys_reads s ! j)
      in commit True (reader_onloadend index result (sys_app s)) (s\<lparr>sys_reads := remove_at j (sys_reads s)\<rparr>))"

text \<open>The \<open>j\<close>-th load succeeds with the decoded image: the canvas runs its \<open>onload\<close>
  handler with the props of the render that started the load, then calls
  \<open>onImageLoad\<close>, which is \<open>() => setIsLoading(false)\<close> for all three canvases.\<close>

definition load_done :: "'img platform \<Rightarrow> nat \<Rightarrow> 'img \<Rightarrow> 'f system \<Rightarrow> 'f system" where
  "load_done P j img s =
     (let (sf, r) = sys_loads s ! j;
          s1 = s\<lparr>sys_loads := remove_at j (sys_loads s),
                 sys_canvas := (sys_canvas s)(sf := image_onload P (lr_props r) img (sys_canvas s sf))\<rparr>
      in commit False (setIsLoading False (sys_app s1)) s1)"

definition sys_init :: "'f system" where
  "sys_init =
     \<lparr>sys_app = app_init, sys_reads = [],
      sys_loads = render_loads app_init (\<lambda>_. blank_canvas 300 150),
      sys_canvas = (\<lambda>_. blank_canvas 300 150)\<rparr>"

inductive sys_step :: "'img platform \<Rightarrow> (string \<Rightarrow> 'img option) \<Rightarrow> ('f \<Rightarrow> string option) \<Rightarrow>
    'f system \<Rightarrow> 'f system \<Rightarrow> bool"
  for P dec rd where
  ui: "ui_ok e \<Longrightarrow> sys_step P dec rd s (ui_handler e s)"
| read: "j < length (sys_reads s) \<Longrightarrow> sys_step P dec rd s (read_done j (rd (snd (sys_reads s ! j))) s)"
| load: "j < length (sys_loads s) \<Longrightarrow> dec (lr_url (snd (sys_loads s ! j))) = Some img \<Longrightarrow>
     sys_step P dec rd s (load_done P j img s)"

inductive reachable :: "'img platform \<Rightarrow> (string \<Rightarrow> 'img option) \<Rightarrow> ('f \<Rightarrow> string option) \<Rightarrow>
    'f system \<Rightarrow> bool"
  for P dec rd where
  init: "reachable P dec rd sys_init"
| step: "reachable P dec rd s \<Longrightarrow> sys_step P dec rd s t \<Longrightarrow> reachable P dec rd t"

text \<open>The same steps as an executable function on a datatype of events, \<open>None\<close> when the
  event cannot happen in the state (no such pending task, a tab index not rendered, an image
  that does not decode), and runs of a list of events.\<close>

datatype 'f sys_event = UserEvent "'f ui_event" | ReadDone nat | LoadDone nat

fun sys_exec :: "'img platform \<Rightarrow> (string \<Rightarrow> 'img option) \<Rightarrow> ('f \<Rightarrow> string option) \<Rightarrow>
    'f sys_event \<Rightarrow> 'f system \<Rightarrow> 'f system option" where
  "sys_exec P dec rd (UserEvent e) s = (if ui_ok e then Some (ui_handler e s) else None)"
| "sys_exec P dec rd (ReadDone j) s =
     (if j < length (sys_reads s) then Some (read_done j (rd (snd (sys_reads s ! j))) s) else None)"
| "sys_exec P dec rd (LoadDone j) s =
     (if j < length (sys_loads s)
      then map_option (\<lambda>img. load_done P j img s) (dec (lr_url (snd (sys_loads s ! j)))) else None)"

fun sys_run :: "'img platform \<Rightarrow> (string \<Rightarrow> 'img option) \<Rightarrow> ('f \<Rightarrow> string option) \<Rightarrow>
    'f sys_event list \<Rightarrow> 'f system \<Rightarrow> 'f system option" where
  "sys_run P dec rd [] s = Some s"
| "sys_run P dec rd (ev # evs) s =
     (case sys_exec P dec rd ev s of None \<Rightarrow> None | Some t \<Rightarrow> sys_run P dec rd evs t)"

subsection \<open>The system invariant\<close>

text \<open>What each surface's props and canvas always satisfy: the original surface is drawn
  with neutral filters and no text, the grayscale surface with grayscale on.\<close>

fun surface_ok :: "surface \<Rightarrow> canvas_props \<Rightarrow> bool" where
  "surface_ok OriginalSurface p \<longleftrightarrow>
     cp_brightness p = Some 0 \<and> cp_contrast p = Some 0 \<and> cp_blur p = Some 0 \<and>
     \<not> cp_grayscale p \<and> cp_overlayText p = []"
| "surface_ok ProcessedSurface p \<longleftrightarrow> True"
| "surface_ok GrayscaleSurface p \<longleftrightarrow> cp_grayscale p"

fun canvas_ok :: "surface \<Rightarrow> canvas \<Rightarrow> bool" where
  "canvas_ok OriginalSurface c \<longleftrightarrow> cv_ops c = []"
| "canvas_ok ProcessedSurface c \<longleftrightarrow> True"
| "canvas_ok GrayscaleSurface c \<longleftrightarrow> gray_pixels (cv_pixels c) = cv_pixels c"

text \<open>The pending tasks agree with the rest of the state: each read's tab is a tab, each
  load's props fit its surface, and each canvas is what its surface may show.\<close>

definition tasks_ok :: "'f system \<Rightarrow> bool" where
  "tasks_ok s \<longleftrightarrow>
     list_all (\<lambda>r. fst r < length tabs) (sys_reads s) \<and>
     list_all (\<lambda>l. surface_ok (fst l) (lr_props (snd l))) (sys_loads s) \<and>
     list_all (\<lambda>sf. canvas_ok sf (sys_canvas s sf)) surfaces"

text \<open>The invariant: the App state is well formed, the tasks agree with it, and the
  spinner is only shown while some load is pending (a completion will clear it).\<close>

definition sys_inv :: "'f system \<Rightarrow> bool" where
  "sys_inv s \<longleftrightarrow>
     app_ok (sys_app s) \<and> tasks_ok s \<and> (isLoading (sys_app s) \<longrightarrow> sys_loads s \<noteq> [])"

subsection \<open>The editor the specification describes\<close>

text \<open>Abstractly the application is an editor of three independent tabs with one of
  them selected: a user event selects a tab, resets the selected one, or sets one field of
  it; an upload changes no tab until its read finishes.\<close>

record editor =
  ed_active :: nat
  ed_tabs :: "nat \<Rightarrow> image_state"

fun editor_step :: "'f ui_event \<Rightarrow> editor \<Rightarrow> editor" where
  "editor_step (TabClick i) ed = ed\<lparr>ed_active := i\<rparr>"
| "editor_step ResetClick ed = ed\<lparr>ed_tabs := (ed_tabs ed)(ed_active ed := defaultImageState)\<rparr>"
| "editor_step (FileChosen f) ed = ed"
| "editor_step (ControlsEvent e) ed =
     ed\<lparr>ed_tabs := (ed_tabs ed)(ed_active ed := controls_spec e (ed_tabs ed (ed_active ed)))\<rparr>"
| "editor_step (OverlayEvent e) ed =
     ed\<lparr>ed_tabs := (ed_tabs ed)(ed_active ed := overlay_spec e (ed_tabs ed (ed_active ed)))\<rparr>"

definition abs_editor :: "app_state \<Rightarrow> editor" where
  "abs_editor st = \<lparr>ed_active = activeTab st, ed_tabs = (\<lambda>i. imageStates st ! i)\<rparr>"

text \<open>The work left without user input: a pending read will add three loads, a raised
  spinner lets one completion add three more. The events that are completions of that work.\<close>

definition pending_work :: "'f system \<Rightarrow> nat" where
  "pending_work s =
     4 * length (sys_reads s) + length (sys_loads s) + (if isLoading (sys_app s) then 3 else 0)"

fun is_completion :: "'f sys_event \<Rightarrow> bool" where
  "is_completion (UserEvent e) \<longleftrightarrow> False"
| "is_completion (ReadDone j) \<longleftrightarrow> True"
| "is_completion (LoadDone j) \<longleftrightarrow> True"

text \<open>Fixtures for concrete runs: every URL decodes, every read returns a data URL.\<close>

definition demo_decode :: "string \<Rightarrow> unit option" where
  "demo_decode url = Some ()"

definition demo_reader :: "unit \<Rightarrow> string option" where
  "demo_reader f = Some ''data:image/png;base64,AAAA''"

subsection \<open>Lemmas on rendering and the handlers\<close>

lemma commit_fields [simp]:
  "sys_app (commit b st s) = st" "sys_reads (commit b st s) = sys_reads s"
  "sys_canvas (commit b st s) = sys_canvas s"
  by (simp_all add: commit_def Let_def)

lemma commit_loads:
  "sys_loads (commit b st s) =
     sys_loads s @ (if b \<or> st \<noteq> sys_app s then render_loads st (sys_canvas s) else [])"
  by (simp add: commit_def Let_def)

lemma render_loads_eq:
  "render_loads st cv =
     map (\<lambda>sf. (sf, \<lparr>lr_url = currentImage (imageStates st ! activeTab st),
                    lr_props = surface_props sf (imageStates st ! activeTab st)\<rparr>)) surfaces"
  by (simp add: render_loads_def surfaces_def canvas_effect_def)

lemma map_fst_render_loads [simp]: "map fst (render_loads st cv) = surfaces"
  by (simp add: render_loads_eq comp_def)

lemma render_loads_ok: "list_all (\<lambda>l. surface_ok (fst l) (lr_props (snd l))) (render_loads st cv)"
  by (simp add: render_loads_eq surfaces_def)

lemma sys_app_ui_handler [simp]:
  "sys_app (ui_handler (TabClick i) s) = setActiveTab i (sys_app s)"
  "sys_app (ui_handler ResetClick s) = handleReset (activeTab (sys_app s)) (sys_app s)"
  "sys_app (ui_handler (FileChosen f) s) = fst (handleImageUpload f (activeTab (sys_app s)) (sys_app s))"
  "sys_app (ui_handler (ControlsEvent e) s) =
     updateImageState (activeTab (sys_app s)) (controls_update (controls_onchange e)) (sys_app s)"
  "sys_app (ui_handler (OverlayEvent e') s) =
     updateImageState (activeTab (sys_app s))
       (overlay_update (overlay_onchange (textPosition (imageStates (sys_app s) ! activeTab (sys_app s))) e'))
       (sys_app s)"
  by (simp_all add: Let_def split: prod.split)

lemma sys_reads_ui_handler:
  "sys_reads (ui_handler e s) =
     sys_reads s @ (case e of FileChosen (Some f) \<Rightarrow> [(activeTab (sys_app s), f)] | _ \<Rightarrow> [])"
  by (cases e) (simp_all add: Let_def handleImageUpload_def split: option.split)

lemma sys_canvas_ui_handler [simp]: "sys_canvas (ui_handler e s) = sys_canvas s"
  by (cases e) (simp_all add: Let_def split: prod.split)

lemma sys_loads_edit:
  "sys_loads (ui_handler ResetClick s) = sys_loads s @ render_loads (sys_app (ui_handler ResetClick s)) (sys_canvas s)"
  "sys_loads (ui_handler (ControlsEvent e) s) =
     sys_loads s @ render_loads (sys_app (ui_handler (ControlsEvent e) s)) (sys_canvas s)"
  "sys_loads (ui_handler (OverlayEvent e') s) =
     sys_loads s @ render_loads (sys_app (ui_handler (OverlayEvent e') s)) (sys_canvas s)"
  by (simp_all add: Let_def commit_loads)

lemma sys_loads_ui_handler:
  "\<exists>new. sys_loads (ui_handler e s) = sys_loads s @ new \<and>
     list_all (\<lambda>l. surface_ok (fst l) (lr_props (snd l))) new"
  by (cases e) (auto simp: Let_def commit_loads render_loads_ok split: prod.split)

lemma load_done_fields:
  "sys_app (load_done P j img s) = setIsLoading False (sys_app s)"
  "sys_reads (load_done P j img s) = sys_reads s"
  "sys_canvas (load_done P j img s) =
     (sys_canvas s)(fst (sys_loads s ! j) :=
        image_onload P (lr_props (snd (sys_loads s ! j))) img (sys_canvas s (fst (sys_loads s ! j))))"
  "sys_loads (load_done P j img s) =
     remove_at j (sys_loads s) @
     (if isLoading (sys_app s) then render_loads (setIsLoading False (sys_app s))
        ((sys_canvas s)(fst (sys_loads s ! j) :=
          image_onload P (lr_props (snd (sys_loads s ! j))) img (sys_canvas s (fst (sys_loads s ! j)))))
      else [])"
  by (simp_all add: load_done_def commit_loads split: prod.split)

lemma read_done_fields:
  "sys_app (read_done j r s) = reader_onloadend (fst (sys_reads s ! j)) r (sys_app s)"
  "sys_reads (read_done j r s) = remove_at j (sys_reads s)"
  "sys_canvas (read_done j r s) = sys_canvas s"
  by (simp_all add: read_done_def Let_def)

lemma gray_pixels_blank: "gray_pixels (replicate (4 * n) 0) = replicate (4 * n) 0"
proof (induction n)
  case (Suc n)
  have "replicate (4 * Suc n) (0 :: u8) = 0 # 0 # 0 # 0 # replicate (4 * n) 0"
    by (simp add: numeral_eq_Suc)
  then show ?case using Suc by simp
qed simp

lemma canvas_ok_blank: "canvas_ok sf (blank_canvas w h)"
  by (cases sf) (simp_all add: mult.assoc gray_pixels_blank)

lemma canvas_ok_onload: "surface_ok sf p \<Longrightarrow> canvas_ok sf (image_onload P p img c)"
  by (cases sf) (simp_all add: onload_ops_eq onload_pixels_eq Let_def gray_loop_reference gray_pixels_idem)

subsection \<open>Every step keeps the invariant\<close>

lemma render_loads_not_Nil [simp]: "render_loads st cv \<noteq> []"
  by (simp add: render_loads_eq surfaces_def)

lemma tasks_ok_commit [simp]: "tasks_ok (commit b st s) = tasks_ok s"
  by (simp add: tasks_ok_def commit_loads render_loads_ok)

lemma sys_inv_commit: "sys_inv s \<Longrightarrow> app_ok st \<Longrightarrow> sys_inv (commit b st s)"
  by (auto simp: sys_inv_def commit_loads)

lemma sys_inv_commit_idle:
  "tasks_ok s \<Longrightarrow> app_ok st \<Longrightarrow> \<not> isLoading st \<Longrightarrow> sys_inv (commit b st s)"
  by (simp add: sys_inv_def)

lemma ui_handler_commit:
  "\<exists>b. ui_handler e s = commit b (sys_app (ui_handler e s)) (s\<lparr>sys_reads := sys_reads (ui_handler e s)\<rparr>)"
proof (cases e)
  case (FileChosen f)
  then show ?thesis by (cases f) (auto simp: handleImageUpload_def commit_def Let_def)
qed (auto simp: Let_def)

lemma sys_inv_ui: "sys_inv s \<Longrightarrow> ui_ok e \<Longrightarrow> sys_inv (ui_handler e s)"
proof -
  assume inv: "sys_inv s" and ok: "ui_ok e"
  then have app: "app_ok (sys_app (ui_handler e s))"
    by (cases e) (simp_all del: ui_handler.simps add: sys_inv_def app_ok_handlers)
  have "activeTab (sys_app s) < length tabs" using inv by (simp add: sys_inv_def app_ok_def)
  then have "sys_inv (s\<lparr>sys_reads := sys_reads (ui_handler e s)\<rparr>)"
    using inv by (simp add: sys_inv_def tasks_ok_def sys_reads_ui_handler split: ui_event.split option.split)
  with app show ?thesis by (metis ui_handler_commit sys_inv_commit)
qed

lemma sys_inv_read: "sys_inv s \<Longrightarrow> j < length (sys_reads s) \<Longrightarrow> sys_inv (read_done j r s)"
proof -
  assume inv: "sys_inv s" and j: "j < length (sys_reads s)"
  then have "fst (sys_reads s ! j) < length tabs" by (simp add: sys_inv_def tasks_ok_def list_all_length)
  then have "app_ok (reader_onloadend (fst (sys_reads s ! j)) r (sys_app s))"
    using inv by (simp add: sys_inv_def app_ok_reader_onloadend)
  moreover have "sys_inv (s\<lparr>sys_reads := remove_at j (sys_reads s)\<rparr>)"
    using inv by (simp add: sys_inv_def tasks_ok_def list_all_remove_at)
  ultimately show ?thesis unfolding read_done_def Let_def
    by (metis sys_inv_commit system.select_convs(1) system.surjective system.update_convs(2))
qed

lemma sys_inv_load:
  assumes inv: "sys_inv s" and j: "j < length (sys_loads s)"
  shows "sys_inv (load_done P j img s)"
proof -
  obtain sf r where l: "sys_loads s ! j = (sf, r)" by fastforce
  have "surface_ok sf (lr_props r)" using inv j l by (auto simp: sys_inv_def tasks_ok_def list_all_length)
  then have "canvas_ok sf (image_onload P (lr_props r) img (sys_canvas s sf))" by (rule canvas_ok_onload)
  then have cv: "list_all (\<lambda>sf'. canvas_ok sf' (((sys_canvas s)(sf := image_onload P (lr_props r) img
      (sys_canvas s sf))) sf')) surfaces"
    using inv by (cases sf) (simp_all add: sys_inv_def tasks_ok_def surfaces_def)
  define s1 where "s1 = s\<lparr>sys_loads := remove_at j (sys_loads s),
    sys_canvas := (sys_canvas s)(sf := image_onload P (lr_props r) img (sys_canvas s sf))\<rparr>"
  have "tasks_ok s1" using inv cv by (simp add: s1_def sys_inv_def tasks_ok_def list_all_remove_at)
  moreover have "app_ok (setIsLoading False (sys_app s1))"
    using inv by (simp add: s1_def sys_inv_def app_ok_setIsLoading)
  ultimately have "sys_inv (commit False (setIsLoading False (sys_app s1)) s1)"
    by (rule sys_inv_commit_idle) (simp add: setIsLoading_def)
  moreover have "sys_app s1 = sys_app s" by (simp add: s1_def)
  ultimately show ?thesis by (simp add: load_done_def l s1_def [symmetric])
qed

lemma sys_inv_init: "sys_inv sys_init"
  by (simp add: sys_inv_def tasks_ok_def sys_init_def app_ok_init render_loads_ok canvas_ok_blank surfaces_def)

lemma sys_inv_step: "sys_step P dec rd s t \<Longrightarrow> sys_inv s \<Longrightarrow> sys_inv t"
  by (induction rule: sys_step.induct) (simp_all add: sys_inv_ui sys_inv_read sys_inv_load)

lemma sys_step_exec: "sys_step P dec rd s t \<longleftrightarrow> (\<exists>ev. sys_exec P dec rd ev s = Some t)"
proof
  assume "sys_step P dec rd s t"
  then show "\<exists>ev. sys_exec P dec rd ev s = Some t"
  proof (induction rule: sys_step.induct)
    case (ui e)
    then show ?case by (intro exI [of _ "UserEvent e"]) simp
  next
    case (read j)
    then show ?case by (intro exI [of _ "ReadDone j"]) simp
  next
    case (load j img)
    then show ?case by (intro exI [of _ "LoadDone j"]) simp
  qed
next
  assume "\<exists>ev. sys_exec P dec rd ev s = Some t"
  then obtain ev where "sys_exec P dec rd ev s = Some t" ..
  then show "sys_step P dec rd s t"
    by (cases ev) (auto simp: sys_step.simps split: if_splits)
qed

lemma sys_run_reachable:
  "reachable P dec rd s \<Longrightarrow> sys_run P dec rd evs s = Some t \<Longrightarrow> reachable P dec rd t"
proof (induction evs arbitrary: s)
  case (Cons ev evs)
  then obtain u where "sys_exec P dec rd ev s = Some u" "sys_run P dec rd evs u = Some t"
    by (auto split: option.splits)
  then show ?case using Cons by (meson reachable.step sys_step_exec)
qed simp

lemma reachable_sys_inv: "reachable P dec rd s \<Longrightarrow> sys_inv s"
  by (induction rule: reachable.induct) (auto intro: sys_inv_init sys_inv_step)

lemma length_sys_loads_edit:
  "length (sys_loads (ui_handler (ControlsEvent e) s)) = length (sys_loads s) + 3"
  "length (sys_loads (ui_handler (OverlayEvent e') s)) = length (sys_loads s) + 3"
  by (simp_all only: sys_loads_edit length_append) (simp_all add: render_loads_eq surfaces_def)

lemma drain_idle:
  "\<not> isLoading (sys_app s) \<Longrightarrow> \<forall>u. dec u \<noteq> None \<Longrightarrow>
   \<exists>t. sys_run P dec rd (replicate (length (sys_loads s)) (LoadDone 0)) s = Some t \<and>
       sys_loads t = [] \<and> sys_app t = sys_app s"
proof (induction "length (sys_loads s)" arbitrary: s)
  case 0
  then show ?case by simp
next
  case (Suc n)
  obtain img where img: "dec (lr_url (snd (sys_loads s ! 0))) = Some img" using Suc.prems(2) by blast
  define t1 where "t1 = load_done P 0 img s"
  have a: "sys_app t1 = sys_app s" using Suc.prems(1) by (simp add: t1_def load_done_fields)
  have l: "length (sys_loads t1) = n"
    using Suc.hyps(2) Suc.prems(1) by (simp add: t1_def load_done_fields remove_at_def)
  have "sys_loads s \<noteq> []" using Suc.hyps(2) by auto
  then have "sys_exec P dec rd (LoadDone 0) s = Some t1" using img by (simp add: t1_def)
  moreover obtain t where "sys_run P dec rd (replicate n (LoadDone 0)) t1 = Some t"
    "sys_loads t = []" "sys_app t = sys_app t1"
    using Suc.hyps(1) [of t1] l a Suc.prems by auto
  ultimately show ?case using a by (auto simp flip: Suc.hyps(2))
qed

subsection \<open>Properties of the application\<close>

text \<open>C1: the application refines the editor of the specification: under the invariant,
  the abstraction of the state after any user event is the editor's step on the
  abstraction before it. So a tab switch changes only the selection, a reset restores the
  defaults of the selected tab, an upload changes no tab, and each panel input sets exactly
  the field it names, on the selected tab, to the value its input shows.\<close>

theorem ui_refines_editor:
  assumes "sys_inv s"
  shows "abs_editor (sys_app (ui_handler e s)) = editor_step e (abs_editor (sys_app s))"
proof -
  have a: "activeTab (sys_app s) < length (imageStates (sys_app s))"
    using assms by (simp add: sys_inv_def app_ok_def)
  show ?thesis
    by (cases e) (simp_all del: ui_handler.simps add: abs_editor_def app_simps controls_merge overlay_merge
        nth_list_update [OF a] fun_eq_iff split: option.split)
qed

theorem ui_refines_editor_witness:
  "abs_editor (sys_app (ui_handler (ControlsEvent (BrightnessDrag 50)) (sys_init :: unit system))) =
     editor_step (ControlsEvent (BrightnessDrag 50) :: unit ui_event) (abs_editor (sys_app (sys_init :: unit system)))"
  by (rule ui_refines_editor) (rule sys_inv_init)

text \<open>C2: in every reachable state there are three tabs, the active index and the index
  of every pending read are below three, every numeric field of every tab is a number on
  its slider's grid, and the spinner is shown only while some image load is pending.\<close>

theorem state_invariant:
  assumes "reachable P dec rd s"
  shows "length (imageStates (sys_app s)) = 3 \<and> activeTab (sys_app s) < 3 \<and>
    list_all state_ok (imageStates (sys_app s)) \<and> list_all (\<lambda>r. fst r < 3) (sys_reads s) \<and>
    (isLoading (sys_app s) \<longrightarrow> sys_loads s \<noteq> [])"
  using reachable_sys_inv [OF assms] by (simp add: sys_inv_def app_ok_def tasks_ok_def)

theorem state_invariant_witness:
  "length (imageStates (sys_app (sys_init :: unit system))) = 3 \<and> activeTab (sys_app (sys_init :: unit system)) < 3 \<and>
    list_all state_ok (imageStates (sys_app (sys_init :: unit system))) \<and>
    list_all (\<lambda>r. fst r < 3) (sys_reads (sys_init :: unit system)) \<and> sys_loads (sys_init :: unit system) \<noteq> []"
  using state_invariant [OF reachable.init [of demo_platform demo_decode demo_reader]]
  by (simp add: sys_init_def app_init_def)

text \<open>C5: the reset button restores the defaults of the active tab only: that tab becomes
  \<open>defaultImageState\<close>, every other tab, the active index and the loading flag are
  unchanged.\<close>

theorem reset_active_tab_only:
  assumes "sys_inv s"
  shows "let a = activeTab (sys_app s); xs = imageStates (sys_app s);
             st' = sys_app (ui_handler ResetClick s)
         in imageStates st' ! a = defaultImageState \<and> length (imageStates st') = length xs \<and>
            (\<forall>j. j \<noteq> a \<longrightarrow> imageStates st' ! j = xs ! j) \<and>
            activeTab st' = a \<and> isLoading st' = isLoading (sys_app s)"
proof -
  have "activeTab (sys_app s) < length (imageStates (sys_app s))"
    using assms by (simp add: sys_inv_def app_ok_def)
  then show ?thesis by (simp add: handleReset_def)
qed

theorem reset_active_tab_only_witness:
  "imageStates (sys_app (ui_handler ResetClick (sys_init :: unit system))) ! 0 = defaultImageState \<and>
   imageStates (sys_app (ui_handler ResetClick (sys_init :: unit system))) ! 1 =
     imageStates (sys_app (sys_init :: unit system)) ! 1 \<and>
   activeTab (sys_app (ui_handler ResetClick (sys_init :: unit system))) = 0"
  using reset_active_tab_only [OF sys_inv_init]
  by (simp del: ui_handler.simps add: Let_def sys_init_def app_init_def)

text \<open>C7: the shared loading flag does not cover uploads. Right after start-up the user
  chooses a file; the flag is already raised, so nothing renders again, and the completion of
  the default image's load clears the spinner while the file is still being read. When the
  read finishes the canvases start loading the uploaded image with the spinner off.\<close>

theorem spinner_off_while_reading:
  "\<exists>s1 s2. sys_run demo_platform demo_decode demo_reader
        [UserEvent (FileChosen (Some ())), LoadDone 0] sys_init = Some s1 \<and>
     sys_reads s1 \<noteq> [] \<and> \<not> isLoading (sys_app s1) \<and>
     sys_exec demo_platform demo_decode demo_reader (ReadDone 0) s1 = Some s2 \<and>
     \<not> isLoading (sys_app s2) \<and>
     (OriginalSurface, \<lparr>lr_url = ''data:image/png;base64,AAAA'',
        lr_props = surface_props OriginalSurface
          (defaultImageState\<lparr>currentImage := ''data:image/png;base64,AAAA''\<rparr>)\<rparr>) \<in> set (sys_loads s2)"
proof -
  define s0 where "s0 = ui_handler (FileChosen (Some ())) (sys_init :: unit system)"
  define s1 where "s1 = load_done demo_platform 0 () s0"
  define s2 where "s2 = read_done 0 (demo_reader ()) s1"
  have a0: "sys_app s0 = app_init" and r0: "sys_reads s0 = [(0, ())]"
    and l0: "sys_loads s0 = render_loads app_init (\<lambda>_. blank_canvas 300 150)"
    by (simp_all add: s0_def sys_init_def handleImageUpload_def app_init_def setIsLoading_def commit_def)
  have a1: "sys_app s1 = app_init\<lparr>isLoading := False\<rparr>" and r1: "sys_reads s1 = [(0, ())]"
    by (simp_all add: s1_def load_done_fields a0 r0 setIsLoading_def)
  have l1: "sys_loads s1 \<noteq> []" by (simp add: s1_def load_done_fields a0 app_init_def)
  have a2: "\<not> isLoading (sys_app s2)" by (simp add: s2_def read_done_fields a1 reader_onloadend_def)
  have l2: "(OriginalSurface, \<lparr>lr_url = ''data:image/png;base64,AAAA'',
        lr_props = surface_props OriginalSurface
          (defaultImageState\<lparr>currentImage := ''data:image/png;base64,AAAA''\<rparr>)\<rparr>) \<in> set (sys_loads s2)"
    by (simp add: s2_def read_done_def Let_def commit_loads render_loads_eq surfaces_def a1 r1
        reader_onloadend_def demo_reader_def app_init_def)
  have "sys_run demo_platform demo_decode demo_reader [UserEvent (FileChosen (Some ())), LoadDone 0] sys_init = Some s1"
    by (simp del: ui_handler.simps add: s0_def [symmetric] s1_def l0 demo_decode_def render_loads_eq surfaces_def)
  moreover have "sys_exec demo_platform demo_decode demo_reader (ReadDone 0) s1 = Some s2"
    by (simp add: s2_def r1)
  ultimately show ?thesis using r1 a1 a2 l2 by auto
qed

text \<open>C8: if every image decodes, the pending loads drain: from any reachable state,
  completing the oldest pending load repeatedly, once per pending load and three more
  times when the spinner is on, ends with no load pending and the spinner off. The tabs and
  the selection do not change on the way.\<close>

theorem loads_drain:
  assumes "reachable P dec rd s" and "\<forall>u. dec u \<noteq> None"
  shows "\<exists>t. sys_run P dec rd
      (replicate (length (sys_loads s) + (if isLoading (sys_app s) then 3 else 0)) (LoadDone 0)) s = Some t \<and>
    sys_loads t = [] \<and> \<not> isLoading (sys_app t) \<and>
    activeTab (sys_app t) = activeTab (sys_app s) \<and> imageStates (sys_app t) = imageStates (sys_app s)"
proof (cases "isLoading (sys_app s)")
  case False
  obtain t where "sys_run P dec rd (replicate (length (sys_loads s)) (LoadDone 0)) s = Some t"
    "sys_loads t = []" "sys_app t = sys_app s"
    using drain_idle [OF False assms(2)] by blast
  then show ?thesis using False by simp
next
  case True
  have "sys_loads s \<noteq> []" using reachable_sys_inv [OF assms(1)] True by (simp add: sys_inv_def)
  then obtain n where n: "length (sys_loads s) = Suc n" by (cases "sys_loads s") auto
  obtain img where img: "dec (lr_url (snd (sys_loads s ! 0))) = Some img" using assms(2) by blast
  define t1 where "t1 = load_done P 0 img s"
  have a: "sys_app t1 = setIsLoading False (sys_app s)" by (simp add: t1_def load_done_fields)
  have l: "length (sys_loads t1) = n + 3"
    using n True by (simp add: t1_def load_done_fields remove_at_def render_loads_eq surfaces_def)
  have e: "sys_exec P dec rd (LoadDone 0) s = Some t1" using n img by (simp add: t1_def)
  obtain t where r: "sys_run P dec rd (replicate (n + 3) (LoadDone 0)) t1 = Some t"
    and t: "sys_loads t = []" "sys_app t = sys_app t1"
    using drain_idle [of t1 dec P rd] l a assms(2) by (auto simp: setIsLoading_def)
  have "sys_run P dec rd (LoadDone 0 # replicate (n + 3) (LoadDone 0)) s = Some t"
    using e r by (simp only: sys_run.simps option.case)
  moreover have "length (sys_loads s) + (if isLoading (sys_app s) then 3 else 0) = Suc (n + 3)"
    using n True by simp
  ultimately have "sys_run P dec rd (replicate (length (sys_loads s) + (if isLoading (sys_app s) then 3 else 0))
      (LoadDone 0)) s = Some t"
    by (simp only: replicate_Suc)
  then show ?thesis using a t by (auto simp: setIsLoading_def)
qed

theorem loads_drain_witness:
  "\<exists>t. sys_run demo_platform demo_decode demo_reader
      (replicate (length (sys_loads (sys_init :: unit system)) +
        (if isLoading (sys_app (sys_init :: unit system)) then 3 else 0)) (LoadDone 0)) sys_init = Some t \<and>
    sys_loads t = [] \<and> \<not> isLoading (sys_app t) \<and>
    activeTab (sys_app t) = activeTab (sys_app (sys_init :: unit system)) \<and>
    imageStates (sys_app t) = imageStates (sys_app (sys_init :: unit system))"
  by (rule loads_drain) (simp_all add: reachable.init demo_decode_def)

text \<open>C11: an upload lands on the tab that was active when the file was chosen, even when
  the user switches tabs before the read finishes; the active index stays where the user
  put it.\<close>

theorem upload_lands_on_captured_tab:
  assumes "sys_inv s"
  shows "let a = activeTab (sys_app s); xs = imageStates (sys_app s);
             t = read_done (length (sys_reads s)) (Some u)
                   (ui_handler (TabClick i) (ui_handler (FileChosen (Some f)) s))
         in imageStates (sys_app t) = xs[a := (xs ! a)\<lparr>currentImage := u\<rparr>] \<and> activeTab (sys_app t) = i"
  using assms
  by (simp del: ui_handler.simps add: read_done_fields sys_reads_ui_handler app_simps nth_append)

theorem upload_lands_on_captured_tab_witness:
  "let a = activeTab (sys_app (sys_init :: unit system)); xs = imageStates (sys_app (sys_init :: unit system));
       t = read_done (length (sys_reads (sys_init :: unit system))) (Some ''data:'')
             (ui_handler (TabClick 1) (ui_handler (FileChosen (Some ())) (sys_init :: unit system)))
   in imageStates (sys_app t) = xs[a := (xs ! a)\<lparr>currentImage := ''data:''\<rparr>] \<and> activeTab (sys_app t) = 1"
  by (rule upload_lands_on_captured_tab) (rule sys_inv_init)

text \<open>C12: a failed read stores \<open>null\<close> as the image: the three canvases of the tab
  are asked to load the URL \<open>null\<close>, which no browser decodes, so no load of it ever
  completes and nothing reports the failure.\<close>

theorem read_failure_loads_null:
  assumes "sys_inv s" and "j < length (sys_reads s)" and "fst (sys_reads s ! j) = activeTab (sys_app s)"
  shows "map (lr_url \<circ> snd) (drop (length (sys_loads s)) (sys_loads (read_done j None s))) =
           [''null'', ''null'', ''null'']"
proof -
  have a: "activeTab (sys_app s) < length (imageStates (sys_app s))"
    using assms(1) by (simp add: sys_inv_def app_ok_def)
  show ?thesis
    using assms(3) by (simp add: read_done_def Let_def commit_loads render_loads_eq surfaces_def
        reader_onloadend_def nth_list_update [OF a])
qed

theorem read_failure_loads_null_witness:
  "map (lr_url \<circ> snd) (drop (length (sys_loads (ui_handler (FileChosen (Some ())) (sys_init :: unit system))))
      (sys_loads (read_done 0 None (ui_handler (FileChosen (Some ())) (sys_init :: unit system))))) =
     [''null'', ''null'', ''null'']"
proof -
  have "sys_inv (ui_handler (FileChosen (Some ())) (sys_init :: unit system))"
    by (rule sys_inv_ui [OF sys_inv_init]) simp
  then show ?thesis
    by (rule read_failure_loads_null)
      (simp_all del: ui_handler.simps add: sys_reads_ui_handler sys_init_def app_init_def app_simps)
qed

text \<open>C16: every panel input reaches all three canvases with the edited value: the
  page renders again and one load per surface is appended to the pending ones, carrying the
  props of the active tab with exactly the field the input names set to the value the input
  shows (the specification's per-field update), for the filter panel and the text panel.\<close>

theorem edit_redraws_all_surfaces:
  assumes "sys_inv s"
  shows "let st = imageStates (sys_app s) ! activeTab (sys_app s);
             loads = (\<lambda>st'. map (\<lambda>sf. (sf, \<lparr>lr_url = currentImage st', lr_props = surface_props sf st'\<rparr>))
                        surfaces)
         in sys_loads (ui_handler (ControlsEvent e) s) = sys_loads s @ loads (controls_spec e st) \<and>
            sys_loads (ui_handler (OverlayEvent e') s) = sys_loads s @ loads (overlay_spec e' st)"
proof -
  have a: "activeTab (sys_app s) < length (imageStates (sys_app s))"
    using assms by (simp add: sys_inv_def app_ok_def)
  show ?thesis
    unfolding Let_def sys_loads_edit(2,3) render_loads_eq
    by (simp del: ui_handler.simps add: updateImageState_def controls_merge overlay_merge a)
qed

theorem edit_redraws_all_surfaces_witness:
  "let st = imageStates (sys_app (sys_init :: unit system)) ! activeTab (sys_app (sys_init :: unit system));
       loads = (\<lambda>st'. map (\<lambda>sf. (sf, \<lparr>lr_url = currentImage st', lr_props = surface_props sf st'\<rparr>))
                  surfaces)
   in sys_loads (ui_handler (ControlsEvent (BrightnessDrag 50)) (sys_init :: unit system)) =
        sys_loads (sys_init :: unit system) @ loads (controls_spec (BrightnessDrag 50) st) \<and>
      sys_loads (ui_handler (OverlayEvent (TextTyped ''Hi'')) (sys_init :: unit system)) =
        sys_loads (sys_init :: unit system) @ loads (overlay_spec (TextTyped ''Hi'') st)"
  by (rule edit_redraws_all_surfaces) (rule sys_inv_init)

fun_cases sys_exec_ReadDoneE: "sys_exec P dec rd (ReadDone j) s = Some t"
  and sys_exec_LoadDoneE: "sys_exec P dec rd (LoadDone j) s = Some t"

lemma read_done_work:
  "j < length (sys_reads s) \<Longrightarrow> Suc (pending_work (read_done j r s)) = pending_work s"
  by (auto simp: pending_work_def read_done_def Let_def commit_loads render_loads_eq surfaces_def
      reader_onloadend_def)

lemma load_done_work:
  "j < length (sys_loads s) \<Longrightarrow> Suc (pending_work (load_done P j img s)) = pending_work s"
  by (auto simp: pending_work_def load_done_fields render_loads_eq surfaces_def setIsLoading_def)

lemma completion_step:
  assumes "is_completion ev" and "sys_exec P dec rd ev s = Some t"
  shows "Suc (pending_work t) = pending_work s"
proof (cases ev)
  case (ReadDone j)
  from assms(2) [unfolded ReadDone] show ?thesis
    by (rule sys_exec_ReadDoneE) (auto split: if_splits intro: read_done_work)
next
  case (LoadDone j)
  from assms(2) [unfolded LoadDone] show ?thesis
    by (rule sys_exec_LoadDoneE) (auto simp: load_done_work eq_commute [of "Some t"] split: if_splits)
qed (use assms in simp)

text \<open>C15: without user input the application comes to rest: every read or load
  completion lowers the pending work by one, so a run of completions from any state has at
  most \<open>pending_work\<close> events, and the work left after it is what it did not do.\<close>

theorem completions_terminate:
  "list_all is_completion evs \<Longrightarrow> sys_run P dec rd evs s = Some t \<Longrightarrow>
     length evs + pending_work t = pending_work s"
proof (induction evs arbitrary: s)
  case (Cons ev evs)
  then obtain u where u: "sys_exec P dec rd ev s = Some u" "sys_run P dec rd evs u = Some t"
    by (auto split: option.splits)
  have "Suc (pending_work u) = pending_work s" using Cons.prems(1) completion_step [OF _ u(1)] by simp
  then show ?case using Cons.IH [OF _ u(2)] Cons.prems(1) by simp
qed simp

theorem completions_terminate_witness:
  "length [LoadDone 0 :: unit sys_event] + pending_work (load_done demo_platform 0 () (sys_init :: unit system)) =
     pending_work (sys_init :: unit system)"
  by (rule completions_terminate [where rd = demo_reader and dec = demo_decode])
    (simp_all add: sys_init_def render_loads_eq surfaces_def demo_decode_def)

end
