(* ===== verification/Spec2Isabelle.thy ===== *)
theory Spec2Isabelle
  imports Events
begin

text \<open>
  \<^bold>\<open>A verification library for the image-processing demo.\<close>

  \<^emph>\<open>The program.\<close> A single-page React application (\<open>src/src\<close>) in which a user
  uploads a photo into one of three tabs, adjusts brightness, contrast, blur and grayscale,
  and places a text overlay. \<open>App.tsx\<close> owns the state: an array of three
  \<open>ImageState\<close> records, the active tab index and one shared \<open>isLoading\<close> flag; its
  handlers reset a tab, upload a file (through an asynchronous FileReader) and merge a
  partial update into a tab. It renders three \<open>ImageCanvas\<close> surfaces for the active
  tab (original, processed, grayscale forced on) and the two panels
  \<open>components/Controls.tsx\<close> and \<open>components/TextOverlay.tsx\<close>, whose inputs
  call back into \<open>App\<close>. \<open>components/ImageCanvas.tsx\<close> is the render routine: on
  every change of its props it loads the image and, in the image's \<open>onload\<close>, sizes and
  clears the canvas, sets the CSS filter string, draws the image, optionally rewrites the
  pixel buffer to grayscale, draws the stroked and filled overlay text and signals
  completion. \<open>components/RecipeCard.tsx\<close> is an unused presentational component.

  \<^emph>\<open>The library.\<close> Each theory imports the ones before it.
  \<^item> \<open>Prelude\<close>: the model's types (\<open>js_number = rat\<close>, \<open>js_value = rat option\<close>
    with \<open>None\<close> for \<open>NaN\<close>, \<open>u8 = 8 word\<close>), the \<open>pixel_simps\<close> and
    \<open>app_simps\<close> collections, object spread of one key (\<open>override\<close>), removal of a
    completed task (\<open>remove_at\<close>), and the list, word and \<open>NaN\<close> lemmas the
    components share.
  \<^item> \<open>JsNumber\<close>: Number::toString (\<open>js_num_str\<close>) and StringToNumber
    (\<open>js_Number\<close>) on exact rationals. These are the ECMAScript conversions behind the
    template literals of the render routine and behind \<open>Number(e.target.value)\<close> in the
    panels.
  \<^item> \<open>Grayscale\<close>: the grayscale loop of \<open>ImageCanvas.tsx\<close> (lines 54--66) over the
    \<open>Uint8ClampedArray\<close>, as a list of 8-bit words. It models ToUint8Clamp, reads past
    the end as \<open>undefined\<close> and writes past the end as ignored (\<open>gray_at\<close>,
    \<open>gray_loop\<close>, a \<open>function\<close> that terminates by the measure
    \<open>length d - i\<close>). The reference \<open>gray_pixels\<close> processes one RGBA pixel at a
    time.
  \<^item> \<open>ImageCanvas\<close>: props and the 2D context as records. The browser (image size,
    filtered drawing) is a record of functions over an image type. The \<open>onload\<close>
    handler is one definition per step of lines 39--87, and the effect is
    \<open>canvas_effect\<close>. Setting the canvas size resets the bitmap and the context, as
    the HTML standard says.
  \<^item> \<open>Panels\<close>: \<open>Controls.tsx\<close> and \<open>TextOverlay.tsx\<close>. Input events and the
    callbacks they fire are datatypes. A range input's value is sanitised the way the
    browser does it (\<open>range_sanitize\<close>).
  \<^item> \<open>App\<close>: \<open>App.tsx\<close>. \<open>ImageState\<close> is a record and its three hooks are
    \<open>app_state\<close>. \<open>handleReset\<close>, \<open>handleImageUpload\<close>,
    \<open>updateImageState\<close> and \<open>reader.onloadend\<close> are functions of the state.
    Object spread is \<open>merge_state\<close>. The module also holds the props of the three
    surfaces and the rendered view. \<open>controls_spec\<close> and \<open>overlay_spec\<close> state
    what each input should do, and \<open>app_ok\<close> is the state invariant.
  \<^item> \<open>Events\<close>: the application as a reactive system. A system state holds the App
    state, the pending FileReader reads (with the tab index captured at the upload), the
    pending image loads (with the props of the render that started them) and the three
    canvases. A handler commits its new state; React renders again when a hook's value
    changed (\<open>setImageStates\<close> always passes a fresh array). Every render restarts
    all three effects, because \<open>onImageLoad\<close> is a new closure and is in their
    dependencies. The steps are the inductive \<open>sys_step\<close>: a user event, a read
    finishing, or a load whose image decodes finishing, in any order. The same steps are
    the executable \<open>sys_exec\<close> (\<open>None\<close> when an event cannot happen) and its runs
    \<open>sys_run\<close>. The order in which the browser completes tasks is the nondeterminism of
    the relation. The abstract \<open>editor\<close> is the specification's view: three independent
    tabs and one of them selected.

  \<^emph>\<open>What is proved.\<close>
  \<^item> Refinement and invariant: every user event refines the editor step (C1). An invariant
    holds in every reachable state (C2): three tabs, indices in range, every field on its
    slider grid, and the spinner on only while a load is pending. It is proved by one
    preservation lemma per kind of step and rule induction over \<open>reachable\<close>. Reset
    touches only the active tab (C5). An upload lands on the tab that was active when the
    file was chosen (C11). A failed read makes the canvases load \<open>null\<close> (C12). Each
    panel input makes all three canvases load the tab with exactly that field updated (C16).
  \<^item> Liveness and termination: if images decode, completing the oldest load at most
    (pending count + 3) times empties the queue and clears the spinner (C8). This bound is
    exact: a completion renders again only when it clears the spinner, which happens at most
    once, and then it adds three loads. Without user input every completion lowers the
    pending work (4 per read, 1 per load, 3 while the spinner is on) by one, so the
    asynchronous work started by one event always ends (C15).
  \<^item> Across components: the original surface always draws through the neutral filter
    without text (C13). The grayscale canvas is gray in every reachable state in which it
    carries no text (C14). The specification's scenario holds end to end on any platform
    (C4). The rendered view reads only the active tab (C23).
  \<^item> Findings, as concrete runs of \<open>sys_run\<close>: a stale load shows another tab's text
    (C6), and the spinner is off while a file is still being read (C7).
  \<^item> Render routine and grayscale: the onload handler does what lines 39--87 say (C9).
    Its result does not depend on the previous canvas (C18). Without overlay text the
    grayscale surface's pixels are rounded means (C19). The index loop equals the pixel
    reference (C3), maps each pixel to its rounded mean (C10), and is idempotent (C17). The
    channel sum is formed on unbounded numbers, and its bound 765 is what makes
    ToUint8Clamp exact.
  \<^item> Panels: every panel callback carries a value in range and on its grid (C20, C21). A
    position update keeps the other axis (C22). These rest on the lemma that \<open>Number\<close>
    reads back every value the render prints (\<open>NaN\<close> and every half-integer), a fact
    about the model of the ECMAScript conversions rather than about the repository's code.
  \<^item> Text drawn on a canvas is kept as a list of drawing operations beside the bitmap.
    Glyph rasterisation is the platform's, so a property of the pixels is a property of the
    picture only when no text is drawn, and C14 and C19 say so.

  \<^emph>\<open>Not modelled.\<close>
  \<^item> The React runtime beyond the two rules above (reconciliation, batching of updates in
    one event, strict-mode double effects), CSS layout and the icons.
  \<^item> \<open>RecipeCard.tsx\<close>: pure presentation, never rendered.
  \<^item> The platform's filter rasterisation, font rendering and image decoding. These are
    parameters (\<open>'img platform\<close>, the decoder \<open>dec\<close>, the reader \<open>rd\<close>), not
    models.
  \<^item> JavaScript doubles are idealised as exact rationals. For the slider values (integers and
    halves) and the sums the code forms from them this is exact.
\<close>

subsection \<open>Properties across the components\<close>

lemma neutral_filter: "filter_string (Some 0) (Some 0) (Some 0) = ''brightness(100%) contrast(100%) blur(0px)''"
  by code_simp

text \<open>C13: the original surface is always the unedited photo: its canvas never carries
  text, and every load pending for it draws through the neutral filter string
  \<open>brightness(100%) contrast(100%) blur(0px)\<close>, without grayscale or text, whatever
  the tab's settings (the JSX passes constants for these props).\<close>

theorem original_surface_plain:
  assumes "reachable P dec rd s"
  shows "cv_ops (sys_canvas s OriginalSurface) = [] \<and>
    list_all (\<lambda>(sf, r). sf = OriginalSurface \<longrightarrow>
        filter_string (cp_brightness (lr_props r)) (cp_contrast (lr_props r)) (cp_blur (lr_props r)) =
          ''brightness(100%) contrast(100%) blur(0px)'' \<and>
        \<not> cp_grayscale (lr_props r) \<and> cp_overlayText (lr_props r) = []) (sys_loads s)"
proof -
  have t: "tasks_ok s" using reachable_sys_inv [OF assms] by (simp add: sys_inv_def)
  then have "cv_ops (sys_canvas s OriginalSurface) = []" by (simp add: tasks_ok_def surfaces_def)
  moreover have "list_all (\<lambda>l. surface_ok (fst l) (lr_props (snd l))) (sys_loads s)"
    using t by (simp add: tasks_ok_def)
  then have "list_all (\<lambda>(sf, r). sf = OriginalSurface \<longrightarrow>
        filter_string (cp_brightness (lr_props r)) (cp_contrast (lr_props r)) (cp_blur (lr_props r)) =
          ''brightness(100%) contrast(100%) blur(0px)'' \<and>
        \<not> cp_grayscale (lr_props r) \<and> cp_overlayText (lr_props r) = []) (sys_loads s)"
    by (rule list.pred_mono_strong) (auto simp: neutral_filter)
  ultimately show ?thesis by blast
qed

theorem original_surface_plain_witness:
  "cv_ops (sys_canvas (sys_init :: unit system) OriginalSurface) = [] \<and>
   filter_string (cp_brightness (lr_props (snd (hd (sys_loads (sys_init :: unit system))))))
     (cp_contrast (lr_props (snd (hd (sys_loads (sys_init :: unit system))))))
     (cp_blur (lr_props (snd (hd (sys_loads (sys_init :: unit system)))))) =
       ''brightness(100%) contrast(100%) blur(0px)''"
  using original_surface_plain [OF reachable.init [of demo_platform demo_decode demo_reader]]
  by (simp add: sys_init_def render_loads_eq surfaces_def)

text \<open>C14: the grayscale surface shows a grayscale picture whenever no text is drawn on it:
  in every reachable state in which the grayscale canvas carries no text, every whole pixel of
  its bitmap has equal red, green and blue channels, before the first load (a blank bitmap)
  and after any completion (the forced grayscale pass). Overlay text is drawn onto the bitmap
  after the pass in the text colour, so with text only the pass is gray.\<close>

theorem grayscale_canvas_gray:
  assumes "reachable P dec rd s" and "cv_ops (sys_canvas s GrayscaleSurface) = []"
    and "4 * k + 2 < length (cv_pixels (sys_canvas s GrayscaleSurface))"
  shows "let px = cv_pixels (sys_canvas s GrayscaleSurface)
         in px ! (4 * k + 1) = px ! (4 * k) \<and> px ! (4 * k + 2) = px ! (4 * k)"
proof -
  define px where "px = cv_pixels (sys_canvas s GrayscaleSurface)"
  have "tasks_ok s" using reachable_sys_inv [OF assms(1)] by (simp add: sys_inv_def)
  then have fp: "gray_pixels px = px" by (simp add: tasks_ok_def surfaces_def px_def)
  have len: "4 * k + 2 < length px" using assms(3) by (simp add: px_def)
  have "px ! (4 * k + j) = avg3 (px ! (4 * k)) (px ! (4 * k + 1)) (px ! (4 * k + 2))" if "j < 3" for j
    using gray_pixels_channel [of k px j] len that fp by simp
  from this [of 0] this [of 1] this [of 2] show ?thesis by (simp add: px_def [symmetric])
qed

theorem grayscale_canvas_gray_witness:
  "let px = cv_pixels (sys_canvas (sys_init :: unit system) GrayscaleSurface)
   in px ! (4 * 0 + 1) = px ! (4 * 0) \<and> px ! (4 * 0 + 2) = px ! (4 * 0)"
  by (rule grayscale_canvas_gray [OF reachable.init [of demo_platform demo_decode demo_reader]])
    (simp_all add: sys_init_def)

lemma scenario_values:
  "range_sanitize (-100) 100 1 50 = 50"
  "filter_string (Some 50) (Some 0) (Some 0) = ''brightness(150%) contrast(100%) blur(0px)''"
  "js_value_str (Some 24) @ ''px Arial'' = ''24px Arial''"
  by code_simp+

text \<open>C4: the scenario of the specification, end to end through the panels, the App state,
  the render effect and the canvas: after choosing a file, its read finishing, brightness
  set to 50, grayscale switched on and the text \<open>Hi\<close> typed, the processed canvas, once
  its latest load completes, is the platform's drawing of the image through
  \<open>brightness(150%) contrast(100%) blur(0px)\<close> passed through the grayscale loop, with
  the text \<open>Hi\<close> stroked in black of width 3 and then filled in white, centred at half the
  width and half the height, in \<open>24px Arial\<close>.\<close>

theorem spec_scenario:
  assumes "\<forall>u. dec u = Some img" and "rd f = Some url"
  shows "\<exists>t. sys_run P dec rd
      [UserEvent (FileChosen (Some f)), ReadDone 0, UserEvent (ControlsEvent (BrightnessDrag 50)),
       UserEvent (ControlsEvent (GrayscaleToggle True)), UserEvent (OverlayEvent (TextTyped ''Hi'')),
       LoadDone 13] sys_init = Some t \<and>
    (let c = sys_canvas t ProcessedSurface; w = img_width P img; h = img_height P img;
         x = Some (of_nat w * 50 / 100); y = Some (of_nat h * 50 / 100);
         st = \<lparr>ts_filter = ''none'', ts_fillStyle = ''#ffffff'', ts_strokeStyle = ''black'',
               ts_font = ''24px Arial'', ts_textAlign = ''center'', ts_textBaseline = ''middle'',
               ts_lineWidth = 3\<rparr>
     in cv_pixels c =
          gray_loop (draw_filtered P ''brightness(150%) contrast(100%) blur(0px)'' img w h
            (replicate (4 * w * h) 0)) 0 \<and>
        cv_ops c = [StrokeText ''Hi'' x y st, FillText ''Hi'' x y st] \<and> cv_width c = w \<and> cv_height c = h)"
proof -
  define s1 where "s1 = ui_handler (FileChosen (Some f)) sys_init"
  define s2 where "s2 = read_done 0 (Some url) s1"
  define s3 where "s3 = ui_handler (ControlsEvent (BrightnessDrag 50)) s2"
  define s4 where "s4 = ui_handler (ControlsEvent (GrayscaleToggle True)) s3"
  define s5 where "s5 = ui_handler (OverlayEvent (TextTyped ''Hi'')) s4"
  define s6 where "s6 = load_done P 13 img s5"
  define T where "T = defaultImageState\<lparr>currentImage := url, brightness := Some 50, grayscale := True,
    overlayText := ''Hi''\<rparr>"
  have r1: "sys_reads s1 = [(0, f)]" and a1: "sys_app s1 = app_init" and l1: "length (sys_loads s1) = 3"
    by (simp_all add: s1_def sys_init_def handleImageUpload_def app_init_def setIsLoading_def commit_def
        render_loads_eq surfaces_def)
  have a2: "sys_app s2 = app_init\<lparr>imageStates := [defaultImageState\<lparr>currentImage := url\<rparr>,
      defaultImageState, defaultImageState]\<rparr>" and l2: "length (sys_loads s2) = 6"
    by (simp_all add: s2_def read_done_def Let_def commit_loads r1 a1 l1 reader_onloadend_def app_init_def
        render_loads_eq surfaces_def)
  have l5: "length (sys_loads s4) = 12" "length (sys_loads s5) = 15"
    by (simp_all del: ui_handler.simps add: s5_def s4_def s3_def length_sys_loads_edit l2)
  have a5: "sys_app s5 = app_init\<lparr>imageStates := [T, defaultImageState, defaultImageState]\<rparr>"
    by (simp add: s5_def s4_def s3_def a2 updateImageState_def controls_merge overlay_merge
        slider_values scenario_values T_def app_init_def)
  have "sys_loads s5 ! 13 = (ProcessedSurface, \<lparr>lr_url = url, lr_props = surface_props ProcessedSurface T\<rparr>)"
  proof -
    have "sys_loads s5 = sys_loads s4 @ render_loads (sys_app s5) (sys_canvas s4)"
      unfolding s5_def by (rule sys_loads_edit(3))
    then show ?thesis using l5(1) by (simp add: nth_append a5 render_loads_eq surfaces_def app_init_def T_def)
  qed
  then have c: "sys_canvas s6 ProcessedSurface = image_onload P (surface_props ProcessedSurface T) img
      (sys_canvas s5 ProcessedSurface)"
    by (simp add: s6_def load_done_fields)
  have "sys_run P dec rd
      [UserEvent (FileChosen (Some f)), ReadDone 0, UserEvent (ControlsEvent (BrightnessDrag 50)),
       UserEvent (ControlsEvent (GrayscaleToggle True)), UserEvent (OverlayEvent (TextTyped ''Hi'')),
       LoadDone 13] sys_init = Some s6"
    using assms l5(2) by (simp del: ui_handler.simps add: s1_def [symmetric] r1 s2_def [symmetric]
        s3_def [symmetric] s4_def [symmetric] s5_def [symmetric] s6_def)
  moreover have "cv_pixels (sys_canvas s6 ProcessedSurface) =
      gray_loop (draw_filtered P ''brightness(150%) contrast(100%) blur(0px)'' img (img_width P img)
        (img_height P img) (replicate (4 * img_width P img * img_height P img) 0)) 0"
    by (simp add: c onload_pixels_eq T_def defaultImageState_def scenario_values Let_def)
  moreover have "cv_ops (sys_canvas s6 ProcessedSurface) =
      [StrokeText ''Hi'' (Some (of_nat (img_width P img) * 50 / 100)) (Some (of_nat (img_height P img) * 50 / 100))
         \<lparr>ts_filter = ''none'', ts_fillStyle = ''#ffffff'', ts_strokeStyle = ''black'',
          ts_font = ''24px Arial'', ts_textAlign = ''center'', ts_textBaseline = ''middle'', ts_lineWidth = 3\<rparr>,
       FillText ''Hi'' (Some (of_nat (img_width P img) * 50 / 100)) (Some (of_nat (img_height P img) * 50 / 100))
         \<lparr>ts_filter = ''none'', ts_fillStyle = ''#ffffff'', ts_strokeStyle = ''black'',
          ts_font = ''24px Arial'', ts_textAlign = ''center'', ts_textBaseline = ''middle'', ts_lineWidth = 3\<rparr>]"
    by (simp add: c onload_ops_eq T_def defaultImageState_def scenario_values Let_def)
  moreover have "cv_width (sys_canvas s6 ProcessedSurface) = img_width P img"
    "cv_height (sys_canvas s6 ProcessedSurface) = img_height P img"
    by (simp_all add: c onload_size_fields)
  ultimately show ?thesis by (simp add: Let_def)
qed

theorem spec_scenario_witness:
  "\<exists>t. sys_run demo_platform demo_decode demo_reader
      [UserEvent (FileChosen (Some ())), ReadDone 0, UserEvent (ControlsEvent (BrightnessDrag 50)),
       UserEvent (ControlsEvent (GrayscaleToggle True)), UserEvent (OverlayEvent (TextTyped ''Hi'')),
       LoadDone 13] (sys_init :: unit system) = Some t \<and>
    (let c = sys_canvas t ProcessedSurface; w = img_width demo_platform (); h = img_height demo_platform ();
         x = Some (of_nat w * 50 / 100); y = Some (of_nat h * 50 / 100);
         st = \<lparr>ts_filter = ''none'', ts_fillStyle = ''#ffffff'', ts_strokeStyle = ''black'',
               ts_font = ''24px Arial'', ts_textAlign = ''center'', ts_textBaseline = ''middle'',
               ts_lineWidth = 3\<rparr>
     in cv_pixels c =
          gray_loop (draw_filtered demo_platform ''brightness(150%) contrast(100%) blur(0px)'' () w h
            (replicate (4 * w * h) 0)) 0 \<and>
        cv_ops c = [StrokeText ''Hi'' x y st, FillText ''Hi'' x y st] \<and> cv_width c = w \<and> cv_height c = h)"
  by (rule spec_scenario [of demo_decode "()" demo_reader "()" "''data:image/png;base64,AAAA''"])
    (simp_all add: demo_decode_def demo_reader_def)

text \<open>C6: loads are never cancelled, so a canvas can show another tab's text, contrary to
  the specification's tab-isolation scenario. The user types \<open>Hi\<close> on tab 0 and switches to
  tab 1 (default settings) before the loads finish; the loads of tab 1's renders complete
  first and tab 0's processed load last. Then tab 1 is active with no text, the processed
  canvas shows \<open>Hi\<close>, and no pending load would redraw it.\<close>

theorem stale_load_shows_other_tab:
  "\<exists>s. sys_run demo_platform demo_decode demo_reader
         [UserEvent (OverlayEvent (TextTyped ''Hi'')), UserEvent (TabClick 1),
          LoadDone 1, LoadDone 6, LoadDone 8, LoadDone 3] sys_init = Some s \<and>
    activeTab (sys_app s) = 1 \<and> overlayText (imageStates (sys_app s) ! 1) = [] \<and>
    overlayText (imageStates (sys_app s) ! 0) = ''Hi'' \<and>
    cv_ops (sys_canvas s ProcessedSurface) \<noteq> [] \<and>
    list_all (\<lambda>op. case op of StrokeText t x y st \<Rightarrow> t = ''Hi'' | FillText t x y st \<Rightarrow> t = ''Hi'')
      (cv_ops (sys_canvas s ProcessedSurface)) \<and>
    list_all (\<lambda>l. fst l \<noteq> ProcessedSurface) (sys_loads s)"
proof -
  define s1 where "s1 = ui_handler (OverlayEvent (TextTyped ''Hi'')) (sys_init :: unit system)"
  define s2 where "s2 = ui_handler (TabClick 1) s1"
  define s3 where "s3 = load_done demo_platform 1 () s2"
  define s4 where "s4 = load_done demo_platform 6 () s3"
  define s5 where "s5 = load_done demo_platform 8 () s4"
  define s6 where "s6 = load_done demo_platform 3 () s5"
  define H where "H = defaultImageState\<lparr>overlayText := ''Hi''\<rparr>"
  define LD where "LD sf = (sf, \<lparr>lr_url = DEFAULT_IMAGE, lr_props = surface_props sf defaultImageState\<rparr>)" for sf
  define LH where "LH sf = (sf, \<lparr>lr_url = DEFAULT_IMAGE, lr_props = surface_props sf H\<rparr>)" for sf
  have D: "currentImage defaultImageState = DEFAULT_IMAGE" by (simp add: defaultImageState_def)
  then have H: "currentImage H = DEFAULT_IMAGE" by (simp add: H_def)
  have a1: "sys_app s1 = app_init\<lparr>imageStates := [H, defaultImageState, defaultImageState]\<rparr>"
    by (simp add: s1_def sys_init_def app_init_def Let_def updateImageState_def H_def)
  have l1: "sys_loads s1 = map LD surfaces @ map LH surfaces"
  proof -
    have "sys_loads s1 = sys_loads (sys_init :: unit system) @
        render_loads (sys_app s1) (sys_canvas (sys_init :: unit system))"
      unfolding s1_def by (rule sys_loads_edit(3))
    then show ?thesis by (simp add: a1 sys_init_def render_loads_eq LD_def LH_def H D app_init_def)
  qed
  have a2: "sys_app s2 = app_init\<lparr>activeTab := 1, imageStates := [H, defaultImageState, defaultImageState]\<rparr>"
    by (simp add: s2_def a1 setActiveTab_def)
  have l2: "sys_loads s2 = map LD surfaces @ map LH surfaces @ map LD surfaces"
    by (simp add: s2_def commit_loads a1 a2 l1 setActiveTab_def app_init_def render_loads_eq LD_def D)
  have l3: "sys_loads s3 = [LD OriginalSurface, LD GrayscaleSurface] @ map LH surfaces @ map LD surfaces @
      map LD surfaces"
    by (simp add: s3_def load_done_fields l2 a2 surfaces_def remove_at_def render_loads_eq
        setIsLoading_def app_init_def LD_def D)
  have a3: "sys_app s3 = app_init\<lparr>activeTab := 1, isLoading := False,
      imageStates := [H, defaultImageState, defaultImageState]\<rparr>"
    by (simp add: s3_def load_done_fields a2 setIsLoading_def)
  have l5: "sys_loads s5 = [LD OriginalSurface, LD GrayscaleSurface] @ map LH surfaces @
      [LD OriginalSurface, LD GrayscaleSurface, LD OriginalSurface, LD GrayscaleSurface]"
    by (simp add: s5_def s4_def load_done_fields l3 a3 surfaces_def remove_at_def setIsLoading_def)
  have a5: "sys_app s5 = sys_app s3" by (simp add: s5_def s4_def load_done_fields a3 setIsLoading_def)
  have l6: "list_all (\<lambda>l. fst l \<noteq> ProcessedSurface) (sys_loads s6)"
    by (simp add: s6_def load_done_fields l5 a5 a3 remove_at_def surfaces_def LD_def LH_def)
  have c6: "cv_ops (sys_canvas s6 ProcessedSurface) \<noteq> [] \<and>
    list_all (\<lambda>op. case op of StrokeText t x y st \<Rightarrow> t = ''Hi'' | FillText t x y st \<Rightarrow> t = ''Hi'')
      (cv_ops (sys_canvas s6 ProcessedSurface))"
    by (simp add: s6_def load_done_fields l5 surfaces_def LH_def onload_ops_eq H_def Let_def)
  have l4: "length (sys_loads s4) = 10"
    by (simp add: s4_def load_done_fields l3 a3 surfaces_def remove_at_def)
  have e: "sys_exec demo_platform demo_decode demo_reader (UserEvent (OverlayEvent (TextTyped ''Hi''))) sys_init = Some s1"
    "sys_exec demo_platform demo_decode demo_reader (UserEvent (TabClick 1)) s1 = Some s2"
    "sys_exec demo_platform demo_decode demo_reader (LoadDone 1) s2 = Some s3"
    "sys_exec demo_platform demo_decode demo_reader (LoadDone 6) s3 = Some s4"
    "sys_exec demo_platform demo_decode demo_reader (LoadDone 8) s4 = Some s5"
    "sys_exec demo_platform demo_decode demo_reader (LoadDone 3) s5 = Some s6"
    apply -
    subgoal by (simp del: ui_handler.simps add: s1_def)
    subgoal by (simp del: ui_handler.simps add: s2_def)
    subgoal using l2 by (simp add: s3_def demo_decode_def surfaces_def)
    subgoal using l3 by (simp add: s4_def demo_decode_def surfaces_def)
    subgoal using l4 by (simp add: s5_def demo_decode_def)
    subgoal using l5 by (simp add: s6_def demo_decode_def surfaces_def)
    done
  have "sys_run demo_platform demo_decode demo_reader
         [UserEvent (OverlayEvent (TextTyped ''Hi'')), UserEvent (TabClick 1),
          LoadDone 1, LoadDone 6, LoadDone 8, LoadDone 3] sys_init = Some s6"
    by (simp only: sys_run.simps e option.case)
  moreover have "activeTab (sys_app s6) = 1 \<and> overlayText (imageStates (sys_app s6) ! 1) = [] \<and>
      overlayText (imageStates (sys_app s6) ! 0) = ''Hi''"
    by (simp add: s6_def load_done_fields a5 a3 setIsLoading_def app_init_def H_def defaultImageState_def)
  ultimately show ?thesis using l6 c6 by blast
qed

end
